theory Spec2Isabelle
  imports Complex_Main "HOL-Library.List_Lexorder" "HOL-Library.Char_ord" "HOL-Library.Monad_Syntax"
    "HOL-Library.AList"
begin

section \<open>Data model (src/utils/dataGenerator.ts)\<close>

text \<open>
  The interface \<^verbatim>\<open>ShovelMarketData\<close>. Every numeric field is a JavaScript number. The
  identifier and the year only ever hold integers and are modelled as \<open>nat\<close> and \<open>int\<close>;
  the measures are modelled as \<open>real\<close>, that is with exact arithmetic: the rounding of
  binary floating point is not part of the model. The field \<^verbatim>\<open>value\<close> is called
  \<open>value'\<close> here.
\<close>

record ShovelMarketData =
  recordId :: nat
  year :: int
  region :: string
  country :: string
  serviceType :: string
  endUserType :: string
  deliveryChannel :: string
  businessModel :: string
  productType :: string
  bladeMaterial :: string
  handleLength :: string
  application :: string
  endUser :: string
  distributionChannelType :: string
  distributionChannel :: string
  brand :: string
  company :: string
  price :: real
  volumeUnits :: real
  qty :: real
  revenue :: real
  marketValueUsd :: real
  value' :: real
  marketSharePct :: real
  cagr :: real
  yoyGrowth :: real

text \<open>
  The values a dynamically typed expression of the program can hold. \<open>JNum x\<close> is a
  finite number; \<open>JNaN\<close>, \<open>JPosInf\<close> and \<open>JNegInf\<close> are the three numbers that are not
  finite. \<open>JRef name\<close> is the object that \<^verbatim>\<open>Object.prototype\<close> holds under \<open>name\<close> (a
  built-in function, or the prototype itself for \<^verbatim>\<open>__proto__\<close>); different names hold
  different objects.
\<close>

datatype jsval = JNum real | JNaN | JPosInf | JNegInf | JStr string | JUndef | JRef string

text \<open>
  The property names every plain object inherits from \<^verbatim>\<open>Object.prototype\<close>. Reading one
  of them from an object that has no own property of that name yields the inherited
  object, not \<^verbatim>\<open>undefined\<close>.
\<close>

definition objectPrototypeNames :: "string list" where
  "objectPrototypeNames =
     [''constructor'', ''__defineGetter__'', ''__defineSetter__'', ''hasOwnProperty'',
      ''__lookupGetter__'', ''__lookupSetter__'', ''isPrototypeOf'', ''propertyIsEnumerable'',
      ''toString'', ''valueOf'', ''__proto__'', ''toLocaleString'']"

section \<open>Filter engine: \<^verbatim>\<open>filterDataframe\<close>\<close>

text \<open>
  \<^verbatim>\<open>item[field as keyof ShovelMarketData]\<close>: property access by name on a record, which
  is a plain object. A name that is not a field of the record yields the inherited object
  when \<^verbatim>\<open>Object.prototype\<close> has the name, and \<^verbatim>\<open>undefined\<close> otherwise.
\<close>

definition getField :: "ShovelMarketData \<Rightarrow> string \<Rightarrow> jsval" where
  "getField item field =
    (if field = ''recordId'' then JNum (real (recordId item))
     else if field = ''year'' then JNum (of_int (year item))
     else if field = ''region'' then JStr (region item)
     else if field = ''country'' then JStr (country item)
     else if field = ''serviceType'' then JStr (serviceType item)
     else if field = ''endUserType'' then JStr (endUserType item)
     else if field = ''deliveryChannel'' then JStr (deliveryChannel item)
     else if field = ''businessModel'' then JStr (businessModel item)
     else if field = ''productType'' then JStr (productType item)
     else if field = ''bladeMaterial'' then JStr (bladeMaterial item)
     else if field = ''handleLength'' then JStr (handleLength item)
     else if field = ''application'' then JStr (application item)
     else if field = ''endUser'' then JStr (endUser item)
     else if field = ''distributionChannelType'' then JStr (distributionChannelType item)
     else if field = ''distributionChannel'' then JStr (distributionChannel item)
     else if field = ''brand'' then JStr (brand item)
     else if field = ''company'' then JStr (company item)
     else if field = ''price'' then JNum (price item)
     else if field = ''volumeUnits'' then JNum (volumeUnits item)
     else if field = ''qty'' then JNum (qty item)
     else if field = ''revenue'' then JNum (revenue item)
     else if field = ''marketValueUsd'' then JNum (marketValueUsd item)
     else if field = ''value'' then JNum (value' item)
     else if field = ''marketSharePct'' then JNum (marketSharePct item)
     else if field = ''cagr'' then JNum (cagr item)
     else if field = ''yoyGrowth'' then JNum (yoyGrowth item)
     else if field \<in> set objectPrototypeNames then JRef field
     else JUndef)"

text \<open>
  \<^verbatim>\<open>String(v)\<close>. The text of a finite number and the text of a built-in object belong to
  the host language; they are given by the parameter \<open>hostString\<close>.
\<close>

fun jsString :: "(jsval \<Rightarrow> string) \<Rightarrow> jsval \<Rightarrow> string" where
  "jsString hostString (JStr s) = s"
| "jsString hostString JUndef = ''undefined''"
| "jsString hostString JNaN = ''NaN''"
| "jsString hostString JPosInf = ''Infinity''"
| "jsString hostString JNegInf = ''-Infinity''"
| "jsString hostString (JNum x) = hostString (JNum x)"
| "jsString hostString (JRef name) = hostString (JRef name)"

text \<open>\<^verbatim>\<open>typeof v === 'number'\<close>\<close>

fun isNumber :: "jsval \<Rightarrow> bool" where
  "isNumber (JNum x) = True"
| "isNumber JNaN = True"
| "isNumber JPosInf = True"
| "isNumber JNegInf = True"
| "isNumber v = False"

text \<open>
  \<^verbatim>\<open>Array.prototype.includes\<close> compares with SameValueZero: same type and same value,
  which is equality of \<open>jsval\<close>.
\<close>

definition arrayIncludes :: "'a list \<Rightarrow> 'a \<Rightarrow> bool" where
  "arrayIncludes values v = (v \<in> set values)"

text \<open>
  The callback of the inner \<^verbatim>\<open>filtered.filter\<close>: the test one entry \<open>(field, values)\<close>
  of the filter object applies to one record.
\<close>

definition keepItem :: "(jsval \<Rightarrow> string) \<Rightarrow> string \<Rightarrow> jsval list \<Rightarrow> ShovelMarketData \<Rightarrow> bool" where
  "keepItem hostString field values item =
    (let itemValue = getField item field in
     if field = ''year'' \<and> isNumber itemValue
     then arrayIncludes (map (jsString hostString) values) (jsString hostString itemValue)
     else arrayIncludes values itemValue)"

text \<open>
  The filter object is given by the list \<^verbatim>\<open>Object.entries(filters)\<close> of its entries. The
  value of an entry is \<open>Some values\<close> when it is an array and \<open>None\<close> when it is anything
  else (\<^verbatim>\<open>undefined\<close>, a scalar): the guard
  \<^verbatim>\<open>values && Array.isArray(values) && values.length > 0\<close> lets only a non-empty array
  restrict the data.
\<close>

type_synonym FilterOptions = "(string \<times> jsval list option) list"

fun filterStep :: "(jsval \<Rightarrow> string) \<Rightarrow> ShovelMarketData list \<Rightarrow> string \<times> jsval list option \<Rightarrow> ShovelMarketData list" where
  "filterStep hostString filtered (field, Some values) =
     (if length values > 0 then filter (keepItem hostString field values) filtered else filtered)"
| "filterStep hostString filtered (field, None) = filtered"

definition filterDataframe :: "(jsval \<Rightarrow> string) \<Rightarrow> ShovelMarketData list \<Rightarrow> FilterOptions \<Rightarrow> ShovelMarketData list" where
  "filterDataframe hostString data filters = foldl (filterStep hostString) data filters"

section \<open>Deterministic data synthesizer: \<^verbatim>\<open>generateComprehensiveData\<close>\<close>

subsection \<open>The fixed lists and tables\<close>

definition years :: "int list" where
  "years = map (\<lambda>i. 2021 + int i) [0..<15]"

definition regions :: "string list" where
  "regions = [''North America'', ''Europe'', ''APAC'', ''Latin America'', ''Middle East'', ''Africa'']"

definition serviceTypes :: "string list" where
  "serviceTypes =
    [''Personal Branding & Executive Consulting'',
     ''Digital Presence & Branding Consulting'',
     ''Transition & Career Image Coaching'',
     ''Corporate & Institutional Image Training'',
     ''Educational & Scalable Branding Programs'',
     ''Public Figure & Media Image Consulting'',
     ''Others (Communication & Presence Coaching, etc.)'']"

definition endUserTypes :: "string list" where
  "endUserTypes =
    [''Senior Executives & Professionals'',
     ''Transitioning Military Personnel'',
     ''Youth & Students (High School / College)'',
     ''Public Figures'',
     ''Government Officials'',
     ''Corporate Teams (HR, Sales, Leadership)'',
     ''Everyday Professionals (Emerging Workforce)'']"

definition deliveryChannels :: "string list" where
  "deliveryChannels = [''In-Person Consulting'', ''Virtual / Online Consulting'', ''Hybrid Engagement'']"

definition businessModels :: "string list" where
  "businessModels =
    [''Premium One-on-One Consulting'',
     ''Subscription-Based Digital Coaching'',
     ''Corporate Contracts / Retainers'',
     ''Online Course / Self-paced Learning'',
     ''Hybrid Workshop + eLearning'',
     ''Licensing / Affiliate Programs'']"

definition productTypes :: "string list" where
  "productTypes = [''Slow Pyrolysis'', ''Fast Pyrolysis'', ''Intermediate Pyrolysis'', ''Dry Distillation'']"

definition bladeMaterials :: "string list" where
  "bladeMaterials =
    [''Hardwood'', ''Softwood'', ''Bamboo'', ''Coconut Shell / Palm Waste'', ''Fruitwood'',
     ''Others (Sawdust, Crop Residue, Mixed Biomass)'']"

definition handleLengths :: "string list" where
  "handleLengths = [''Agricultural Grade'', ''Industrial Grade'', ''Pharmaceutical / Food Grade'']"

definition applications :: "string list" where
  "applications = [''Liquid'', ''Powder / Solid'', ''Concentrate / Distilled'']"

definition endUsers :: "string list" where
  "endUsers =
    [''Agriculture & Farming'',
     ''Animal Feed & Husbandry'',
     ''Food & Beverage'',
     ''Pharmaceuticals & Healthcare'',
     ''Personal Care & Cosmetics'',
     ''Activated Carbon & Charcoal Production'',
     ''Others (Bioenergy & Chemicals etc.)'']"

text \<open>An object literal used as a table is the map of its entries.\<close>

definition applicationSubtypes :: "string \<rightharpoonup> string list" where
  "applicationSubtypes = map_of
    [(''Agriculture & Farming'',
        [''Bio-Pesticide'', ''Soil Conditioner'', ''Plant Growth Promoter'', ''Compost Accelerator'']),
     (''Animal Feed & Husbandry'', [''Feed Additive'', ''Odor Control'']),
     (''Food & Beverage'', [''Natural Flavoring'']),
     (''Pharmaceuticals & Healthcare'', [''Antiseptic'', ''Detoxification Agent'']),
     (''Personal Care & Cosmetics'', [''Skincare Products'', ''Deodorants'']),
     (''Activated Carbon & Charcoal Production'', [''Carbonization Aid'', ''Quality Enhancer'']),
     (''Others (Bioenergy & Chemicals etc.)'', [])]"

definition brands :: "string list" where
  "brands =
    [''Fiskars'', ''Bully Tools'', ''Razor-Back'', ''Truper'', ''Ames'',
     ''Spear & Jackson'', ''Radius Garden'', ''Seymour'', ''Union Tools'', ''Garant'']"

definition companies :: "string list" where
  "companies =
    [''Fiskars Corporation'', ''Bully Tools Inc'', ''Razor-Back Tools'', ''Truper Herramientas'',
     ''Ames True Temper'', ''Spear & Jackson'', ''Radius Garden'', ''Seymour Manufacturing'',
     ''Union Tools'', ''Garant GP'']"

definition countryMap :: "string \<rightharpoonup> string list" where
  "countryMap = map_of
    [(''North America'', [''U.S.'', ''Canada'']),
     (''Europe'', [''U.K.'', ''Germany'', ''Italy'', ''France'', ''Spain'', ''Russia'']),
     (''APAC'', [''China'', ''India'', ''Japan'', ''South Korea'', ''Australia'']),
     (''Latin America'', [''Brazil'', ''Argentina'', ''Mexico'', ''Peru'']),
     (''Middle East'', [''GCC'', ''Israel'']),
     (''Africa'', [''South Africa''])]"

datatype ProductMult = ProductMult (pPrice: real) (pVolume: real) (pCagr: real)

datatype PriceVolume = PriceVolume (mPrice: real) (mVolume: real)

datatype RegionMult = RegionMult (rVolume: real) (rMarketShare: real)

definition productTypeMultipliers :: "string \<rightharpoonup> ProductMult" where
  "productTypeMultipliers = map_of
    [(''Slow Pyrolysis'', ProductMult 1.0 1.2 1.1),
     (''Fast Pyrolysis'', ProductMult 1.1 1.3 1.2),
     (''Intermediate Pyrolysis'', ProductMult 1.05 1.1 1.05),
     (''Dry Distillation'', ProductMult 0.9 1.0 1.0)]"

definition bladeMaterialMultipliers :: "string \<rightharpoonup> PriceVolume" where
  "bladeMaterialMultipliers = map_of
    [(''Hardwood'', PriceVolume 1.2 1.3),
     (''Softwood'', PriceVolume 1.0 1.4),
     (''Bamboo'', PriceVolume 1.1 1.2),
     (''Coconut Shell / Palm Waste'', PriceVolume 0.9 1.1),
     (''Fruitwood'', PriceVolume 1.3 0.9),
     (''Others (Sawdust, Crop Residue, Mixed Biomass)'', PriceVolume 0.8 1.0)]"

definition applicationMultipliers :: "string \<rightharpoonup> PriceVolume" where
  "applicationMultipliers = map_of
    [(''Liquid'', PriceVolume 1.2 1.5),
     (''Powder / Solid'', PriceVolume 0.9 1.0),
     (''Concentrate / Distilled'', PriceVolume 1.4 0.8)]"

definition endUserMultipliers :: "string \<rightharpoonup> PriceVolume" where
  "endUserMultipliers = map_of
    [(''Agriculture & Farming'', PriceVolume 1.0 1.5),
     (''Animal Feed & Husbandry'', PriceVolume 1.1 1.2),
     (''Food & Beverage'', PriceVolume 1.4 0.8),
     (''Pharmaceuticals & Healthcare'', PriceVolume 1.6 0.7),
     (''Personal Care & Cosmetics'', PriceVolume 1.3 1.0),
     (''Activated Carbon & Charcoal Production'', PriceVolume 1.1 1.3),
     (''Others (Bioenergy & Chemicals etc.)'', PriceVolume 1.0 1.0)]"

definition regionMultipliers :: "string \<rightharpoonup> RegionMult" where
  "regionMultipliers = map_of
    [(''North America'', RegionMult 1.5 1.4),
     (''Europe'', RegionMult 1.3 1.3),
     (''APAC'', RegionMult 1.8 1.5),
     (''Latin America'', RegionMult 1.1 0.9),
     (''Middle East'', RegionMult 0.9 1.1),
     (''Africa'', RegionMult 1.2 0.8)]"

text \<open>
  \<^verbatim>\<open>brands.forEach((brand, idx) => { brandPremiumMap[brand] = 0.8 + (idx % 3) * 0.4 })\<close>,
  starting from the empty object.
\<close>

definition brandPremiumMap :: "string \<rightharpoonup> real" where
  "brandPremiumMap =
     fold (\<lambda>(idx, b) m. m(b \<mapsto> 0.8 + real (idx mod 3) * 0.4)) (enumerate 0 brands) Map.empty"

subsection \<open>The generation loop\<close>

text \<open>
  The mutable variables of the generator: the state of the pseudo-random sequence, the
  next identifier (the variable \<^verbatim>\<open>recordId\<close>) and the array \<^verbatim>\<open>data\<close>.
\<close>

record GenState =
  seed :: nat
  nextId :: nat
  data :: "ShovelMarketData list"

definition seededRandom :: "GenState \<Rightarrow> real \<times> GenState" where
  "seededRandom st =
    (let seed' = (seed st * 9301 + 49297) mod 233280
     in (real seed' / 233280, st\<lparr>seed := seed'\<rparr>))"

text \<open>
  \<^verbatim>\<open>xs[Math.floor(r * xs.length)]\<close>. An index outside the array reads \<^verbatim>\<open>undefined\<close>,
  which no field of the record type admits: the model gives \<open>None\<close> there and the
  generation step stops.
\<close>

definition pickAt :: "'a list \<Rightarrow> real \<Rightarrow> 'a option" where
  "pickAt xs r =
    (let i = \<lfloor>r * real (length xs)\<rfloor>
     in if 0 \<le> i \<and> i < int (length xs) then Some (xs ! nat i) else None)"

text \<open>\<^verbatim>\<open>Math.round(x * 100) / 100\<close>; \<^verbatim>\<open>Math.round\<close> rounds a half upwards.\<close>

definition round2 :: "real \<Rightarrow> real" where
  "round2 x = of_int \<lfloor>x * 100 + 1 / 2\<rfloor> / 100"

text \<open>\<^verbatim>\<open>applicationSubtypes[endUser] || []\<close>\<close>

definition subtypesOf :: "string \<Rightarrow> string list" where
  "subtypesOf endUsr = (case applicationSubtypes endUsr of None \<Rightarrow> [] | Some xs \<Rightarrow> xs)"

text \<open>
  The body of the innermost loop. Reading a property of \<^verbatim>\<open>undefined\<close> (a table without
  the key) throws; an exception is the result \<open>None\<close>.
\<close>

definition generateRecord ::
  "int \<Rightarrow> string \<Rightarrow> RegionMult option \<Rightarrow> string \<Rightarrow> string \<Rightarrow> string \<Rightarrow> string \<Rightarrow> string
     \<Rightarrow> GenState \<Rightarrow> GenState option" where
  "generateRecord yr reg regionMult ctry serviceTy endUserTy deliveryCh businessMo st0 = do {
     let (r, st) = seededRandom st0;
     productTy \<leftarrow> pickAt productTypes r;
     let productMult = productTypeMultipliers productTy;
     let (r, st) = seededRandom st;
     bladeMat \<leftarrow> pickAt bladeMaterials r;
     let bladeMult = bladeMaterialMultipliers bladeMat;
     let (r, st) = seededRandom st;
     handleLen \<leftarrow> pickAt handleLengths r;
     let handleMult = (if handleLen = ''Long Handle'' then 1.1
                       else if handleLen = ''Short Handle'' then 0.9 else (1.0 :: real));
     let (r, st) = seededRandom st;
     app \<leftarrow> pickAt applications r;
     let appMult = applicationMultipliers app;
     let (r, st) = seededRandom st;
     endUsr \<leftarrow> pickAt endUsers r;
     let userMult = endUserMultipliers endUsr;
     let (r, st) = seededRandom st;
     let isDirect = (r > 0.5);
     let distributionChTy = (if isDirect then ''Direct'' else ''Indirect (Via Distributors)'');
     let subtypes = subtypesOf endUsr;
     (distributionCh, st) \<leftarrow>
        (if length subtypes > 0
         then (let (r, st) = seededRandom st in map_option (\<lambda>x. (x, st)) (pickAt subtypes r))
         else Some (endUsr, st));
     let (r, st) = seededRandom st;
     brnd \<leftarrow> pickAt brands r;
     let brandMult = (case brandPremiumMap brnd of None \<Rightarrow> 1.0
                      | Some v \<Rightarrow> if v = 0 then 1.0 else v);
     let (r, st) = seededRandom st;
     cmpny \<leftarrow> pickAt companies r;
     let (r, st) = seededRandom st;
     let basePrice = 10 + r * 90;
     productMult \<leftarrow> productMult;
     bladeMult \<leftarrow> bladeMult;
     let prc = basePrice * pPrice productMult * mPrice bladeMult * brandMult
                 * (1 + (of_int yr - 2021) * 0.02);
     let (r, st) = seededRandom st;
     let baseVolume = 100 + r * 900;
     regionMult \<leftarrow> regionMult;
     appMult \<leftarrow> appMult;
     userMult \<leftarrow> userMult;
     let volUnits = of_int \<lfloor>baseVolume * rVolume regionMult * pVolume productMult
                       * mVolume bladeMult * mVolume appMult * mVolume userMult * handleMult
                       * (1 + (of_int yr - 2021) * 0.05)\<rfloor>;
     let rev = prc * volUnits;
     let (r, st) = seededRandom st;
     let marketValUsd = rev * (0.9 + r * 0.2);
     let (r, st) = seededRandom st;
     let baseMarketShare = 1 + r * 24;
     let marketShrPct = baseMarketShare * rMarketShare regionMult * brandMult;
     let (r, st) = seededRandom st;
     let baseCAGR = - 2 + r * 12;
     let cgr = baseCAGR * pCagr productMult;
     let (r, st) = seededRandom st;
     let yoyGr = - 5 + r * 20;
     let (r, st) = seededRandom st;
     let qt = of_int \<lfloor>volUnits * (0.8 + r * 0.4)\<rfloor>;
     Some (st\<lparr>data := data st @
              [\<lparr>recordId = nextId st, year = yr, region = reg, country = ctry,
                serviceType = serviceTy, endUserType = endUserTy,
                deliveryChannel = deliveryCh, businessModel = businessMo,
                productType = productTy, bladeMaterial = bladeMat, handleLength = handleLen,
                application = app, endUser = endUsr,
                distributionChannelType = distributionChTy,
                distributionChannel = distributionCh, brand = brnd, company = cmpny,
                price = round2 prc, volumeUnits = volUnits, qty = qt,
                revenue = round2 rev, marketValueUsd = round2 marketValUsd,
                value' = round2 marketValUsd, marketSharePct = round2 marketShrPct,
                cagr = round2 cgr, yoyGrowth = round2 yoyGr\<rparr>],
            nextId := nextId st + 1\<rparr>)
   }"

text \<open>A \<^verbatim>\<open>for ... of\<close> loop over a list; an exception in the body leaves the loop.\<close>

fun forEach :: "('a \<Rightarrow> 's \<Rightarrow> 's option) \<Rightarrow> 'a list \<Rightarrow> 's \<Rightarrow> 's option" where
  "forEach body [] st = Some st"
| "forEach body (x # xs) st =
     (case body x st of None \<Rightarrow> None | Some st' \<Rightarrow> forEach body xs st')"

definition countriesOf :: "string \<Rightarrow> string list" where
  "countriesOf reg = (case countryMap reg of None \<Rightarrow> [] | Some cs \<Rightarrow> cs)"

definition regionLoop :: "int \<Rightarrow> string \<Rightarrow> GenState \<Rightarrow> GenState option" where
  "regionLoop yr reg =
    (let regionMult = regionMultipliers reg; countries = countriesOf reg
     in forEach (\<lambda>ctry.
          forEach (\<lambda>serviceTy.
            forEach (\<lambda>endUserTy.
              forEach (\<lambda>deliveryCh.
                forEach (\<lambda>businessMo.
                  generateRecord yr reg regionMult ctry serviceTy endUserTy deliveryCh businessMo)
                businessModels)
              deliveryChannels)
            endUserTypes)
          serviceTypes)
        countries)"

definition initialState :: GenState where
  "initialState = \<lparr>seed = 42, nextId = 100000, data = []\<rparr>"

text \<open>The result is \<open>None\<close> when the generation throws.\<close>

definition generateComprehensiveData :: "ShovelMarketData list option" where
  "generateComprehensiveData =
     map_option data (forEach (\<lambda>yr. forEach (\<lambda>reg. regionLoop yr reg) regions) years initialState)"

subsection \<open>What the loop is expected to emit\<close>

text \<open>The seven loop variables of a record, and their enumeration in loop order.\<close>

type_synonym combination = "int \<times> string \<times> string \<times> string \<times> string \<times> string \<times> string"

definition comboOf :: "ShovelMarketData \<Rightarrow> combination" where
  "comboOf rec = (year rec, region rec, country rec, serviceType rec, endUserType rec,
                  deliveryChannel rec, businessModel rec)"

definition allCombinations :: "combination list" where
  "allCombinations =
     concat (map (\<lambda>yr. concat (map (\<lambda>reg. concat (map (\<lambda>ctry.
       concat (map (\<lambda>serviceTy. concat (map (\<lambda>endUserTy. concat (map (\<lambda>deliveryCh.
         concat (map (\<lambda>businessMo.
           [(yr, reg, ctry, serviceTy, endUserTy, deliveryCh, businessMo)])
         businessModels)) deliveryChannels)) endUserTypes)) serviceTypes))
       (countriesOf reg))) regions)) years)"

text \<open>
  The subtype rule of a record: the distribution channel is one of the subtypes of the
  record's end user when there are any, and the end user itself otherwise.
\<close>

definition subtypeInvariant :: "ShovelMarketData \<Rightarrow> bool" where
  "subtypeInvariant rec =
     (if subtypesOf (endUser rec) \<noteq> []
      then distributionChannel rec \<in> set (subtypesOf (endUser rec))
      else distributionChannel rec = endUser rec)"

text \<open>
  A piece of the loop emits the combinations \<open>ks\<close>: from every state it returns
  normally, having appended one record per combination, in order, with consecutive
  identifiers from the next identifier on, each record obeying the subtype rule.
\<close>

definition emits :: "(GenState \<Rightarrow> GenState option) \<Rightarrow> combination list \<Rightarrow> bool" where
  "emits f ks =
     (\<forall>st. \<exists>st' new. f st = Some st' \<and> data st' = data st @ new
        \<and> nextId st' = nextId st + length ks
        \<and> map comboOf new = ks
        \<and> map recordId new = [nextId st ..< nextId st + length ks]
        \<and> list_all subtypeInvariant new)"

text \<open>One step of the innermost loop emits one record for the combination \<open>k\<close>.\<close>

definition emitted :: "GenState \<Rightarrow> combination \<Rightarrow> GenState \<Rightarrow> bool" where
  "emitted st0 k st' = (\<exists>rec. data st' = data st0 @ [rec] \<and> nextId st' = nextId st0 + 1 \<and> recordId rec = nextId st0
     \<and> comboOf rec = k \<and> subtypeInvariant rec)"

subsection \<open>The module-level cache\<close>

record Module =
  dataCache :: "ShovelMarketData list option"

text \<open>
  \<^verbatim>\<open>getData\<close> with the outcome of the generator as a parameter (\<open>None\<close>: it throws). The
  test \<^verbatim>\<open>!dataCache\<close> holds for \<^verbatim>\<open>null\<close> only: an array, also an empty one, is truthy.
\<close>

definition getDataWith :: "ShovelMarketData list option \<Rightarrow> Module \<Rightarrow> ShovelMarketData list \<times> Module" where
  "getDataWith generated m =
    (case dataCache m of
       None \<Rightarrow>
         (let dc = (case generated of Some d \<Rightarrow> d | None \<Rightarrow> [])
          in (dc, m\<lparr>dataCache := Some dc\<rparr>))
     | Some dc \<Rightarrow> (dc, m))"

definition getData :: "Module \<Rightarrow> ShovelMarketData list \<times> Module" where
  "getData = getDataWith generateComprehensiveData"

definition clearDataCache :: "Module \<Rightarrow> Module" where
  "clearDataCache m = m\<lparr>dataCache := None\<rparr>"

section \<open>Market attractiveness: \<^verbatim>\<open>bubbleChartDataByCategory\<close> (src/pages/MarketAnalysis.tsx)\<close>

text \<open>
  Strings are ordered as \<^verbatim>\<open>Array.prototype.sort\<close> orders them by default:
  lexicographically by character code, a proper prefix first.
\<close>

subsection \<open>Grouping the records by category\<close>

text \<open>The \<^verbatim>\<open>switch\<close> of \<^verbatim>\<open>getCategoryValue\<close>; \<open>None\<close> is \<^verbatim>\<open>null\<close>.\<close>

definition getCategoryValue :: "ShovelMarketData \<Rightarrow> string \<Rightarrow> string option" where
  "getCategoryValue d segType =
     (if segType = ''By Service Type'' then Some (serviceType d)
      else if segType = ''By End User'' then Some (endUserType d)
      else if segType = ''By Delivery Channel'' then Some (deliveryChannel d)
      else if segType = ''By Business Model'' then Some (businessModel d)
      else None)"

text \<open>The three arrays kept per category: \<^verbatim>\<open>values\<close>, \<^verbatim>\<open>volumes\<close>, \<^verbatim>\<open>years\<close>.\<close>

record CategoryData =
  cdValues :: "real list"
  cdVolumes :: "real list"
  cdYears :: "int list"

text \<open>
  A \<^verbatim>\<open>Map\<close> keeps its keys in insertion order: it is an association list, and
  \<^verbatim>\<open>set\<close> is \<open>AList.update\<close> (in place for a key that is present, at the end for a new
  one). The callback of \<^verbatim>\<open>filteredAttractivenessData.forEach\<close>: a record without a
  category (\<^verbatim>\<open>null\<close> or the empty string) is skipped; otherwise the entry of the category,
  created empty when absent, receives the record's value, volume and year.
\<close>

definition addToCategory :: "string \<Rightarrow> (string \<times> CategoryData) list \<Rightarrow> ShovelMarketData
     \<Rightarrow> (string \<times> CategoryData) list" where
  "addToCategory segmentType categoryDataMap d =
     (case getCategoryValue d segmentType of
        None \<Rightarrow> categoryDataMap
      | Some categoryValue \<Rightarrow>
          if categoryValue = [] then categoryDataMap
          else
            let itemData = (case map_of categoryDataMap categoryValue of
                              None \<Rightarrow> \<lparr>cdValues = [], cdVolumes = [], cdYears = []\<rparr>
                            | Some it \<Rightarrow> it);
                val = marketValueUsd d / 1000
            in AList.update categoryValue
                 (itemData\<lparr>cdValues := cdValues itemData @ [val],
                            cdVolumes := cdVolumes itemData @ [volumeUnits d],
                            cdYears := cdYears itemData @ [year d]\<rparr>)
                 categoryDataMap)"

definition categoryDataMapOf :: "string \<Rightarrow> ShovelMarketData list \<Rightarrow> (string \<times> CategoryData) list" where
  "categoryDataMapOf segmentType filteredAttractivenessData =
     foldl (addToCategory segmentType) [] filteredAttractivenessData"

definition allItemsTotalOf :: "ShovelMarketData list \<Rightarrow> real" where
  "allItemsTotalOf filteredAttractivenessData =
     foldl (\<lambda>sum d. sum + marketValueUsd d / 1000) 0 filteredAttractivenessData"

definition sortedItemsOf :: "(string \<times> CategoryData) list \<Rightarrow> string list" where
  "sortedItemsOf categoryDataMap = sort (map fst categoryDataMap)"

subsection \<open>Raw values per category\<close>

definition startYear :: int where
  "startYear = 2025"

definition endYear :: int where
  "endYear = 2032"

text \<open>\<^verbatim>\<open>itemData.values.filter((_, i) => itemData.years[i] === y)\<close>\<close>

definition valuesOfYear :: "CategoryData \<Rightarrow> int \<Rightarrow> real list" where
  "valuesOfYear itemData y =
     map snd (filter (\<lambda>(i, v). i < length (cdYears itemData) \<and> cdYears itemData ! i = y)
                (enumerate 0 (cdValues itemData)))"

text \<open>\<^verbatim>\<open>xs.length > 0 ? xs.reduce((a, b) => a + b, 0) / xs.length : 0\<close>\<close>

definition average :: "real list \<Rightarrow> real" where
  "average xs = (if length xs > 0 then foldl (+) 0 xs / real (length xs) else 0)"

text \<open>
  The growth rate computed from the start and end values (the variable \<^verbatim>\<open>cagr\<close> up to
  the clamp). \<^verbatim>\<open>Math.pow\<close> is only reached with a positive base, where it is \<open>powr\<close>.
\<close>

definition cagrFromValues :: "real \<Rightarrow> real \<Rightarrow> real" where
  "cagrFromValues startValue endValue =
     (let cagr0 = 0;
          cagr1 = (if startValue > 0 \<and> endValue > 0
                   then (let yrs = endYear - startYear
                         in ((endValue / startValue) powr (1 / of_int yrs) - 1) * 100)
                   else cagr0)
      in max 0 cagr1)"

text \<open>
  The remainder operator \<^verbatim>\<open>%\<close> on numbers: the quotient is truncated towards zero. (A
  zero divisor gives \<^verbatim>\<open>NaN\<close>; the divisor here is the length of a non-empty list.)
\<close>

definition jsRem :: "real \<Rightarrow> real \<Rightarrow> real" where
  "jsRem a b = a - b * of_int (if 0 \<le> a / b then \<lfloor>a / b\<rfloor> else \<lceil>a / b\<rceil>)"

record RawBubble =
  rbRegion :: string
  rbCagr :: real
  rbMarketShare :: real
  rbIncrementalOpportunity :: real

text \<open>
  The callback of \<^verbatim>\<open>sortedItems.map\<close>. \<^verbatim>\<open>categoryDataMap.get(item)!\<close> of a key that is
  not in the map is \<^verbatim>\<open>undefined\<close>, and reading its \<^verbatim>\<open>values\<close> throws: \<open>None\<close>. The
  variables \<^verbatim>\<open>cagr\<close> and \<^verbatim>\<open>marketShare\<close> are assigned twice, as in the source.
\<close>

definition rawBubble :: "(string \<times> CategoryData) list \<Rightarrow> real \<Rightarrow> nat \<Rightarrow> nat \<Rightarrow> string
     \<Rightarrow> RawBubble option" where
  "rawBubble categoryDataMap allItemsTotal numItems index item =
     (case map_of categoryDataMap item of
        None \<Rightarrow> None
      | Some itemData \<Rightarrow>
          (let startValue = average (valuesOfYear itemData startYear);
               endValue = average (valuesOfYear itemData endYear);
               cagr = cagrFromValues startValue endValue;
               itemTotal = foldl (+) 0 (cdValues itemData);
               marketShare = (if allItemsTotal > 0 then itemTotal / allItemsTotal * 100 else 0);
               cagr = real index / max 1 (real numItems - 1) * 25.0;
               goldenRatio = 1.618;
               sharePosition = jsRem (real index * goldenRatio) (real numItems)
                                 / max 1 (real numItems - 1);
               marketShare = sharePosition * 30.0;
               incrementalOpportunity = endValue - startValue
           in Some \<lparr>rbRegion = item, rbCagr = cagr, rbMarketShare = marketShare,
                     rbIncrementalOpportunity = \<bar>incrementalOpportunity\<bar>\<rparr>))"

text \<open>All callbacks must return for the \<^verbatim>\<open>map\<close> to return.\<close>

fun allSome :: "'a option list \<Rightarrow> 'a list option" where
  "allSome [] = Some []"
| "allSome (None # xs) = None"
| "allSome (Some x # xs) = (case allSome xs of None \<Rightarrow> None | Some ys \<Rightarrow> Some (x # ys))"

text \<open>The variable \<^verbatim>\<open>rawBubbleData\<close>, reached when \<^verbatim>\<open>segmentType\<close> is not empty.\<close>

definition rawBubbleData :: "string \<Rightarrow> ShovelMarketData list \<Rightarrow> RawBubble list option" where
  "rawBubbleData segmentType filteredAttractivenessData =
     (let categoryDataMap = categoryDataMapOf segmentType filteredAttractivenessData;
          allItemsTotal = allItemsTotalOf filteredAttractivenessData;
          sortedItems = sortedItemsOf categoryDataMap
      in allSome (map (\<lambda>(index, item).
                        rawBubble categoryDataMap allItemsTotal (length sortedItems) index item)
                   (enumerate 0 sortedItems)))"

subsection \<open>Normalisation\<close>

record Bubble = RawBubble +
  cagrIndex :: real
  marketShareIndex :: real

text \<open>\<^verbatim>\<open>Math.min(...xs)\<close> and \<^verbatim>\<open>Math.max(...xs)\<close> of a non-empty list.\<close>

definition mathMin :: "real list \<Rightarrow> real" where
  "mathMin xs = foldl min (hd xs) (tl xs)"

definition mathMax :: "real list \<Rightarrow> real" where
  "mathMax xs = foldl max (hd xs) (tl xs)"

text \<open>
  The variable \<^verbatim>\<open>normalizedData\<close>. For an empty \<^verbatim>\<open>rawBubbleData\<close> the bounds are
  infinite in the source but are not used, the list being empty.
\<close>

definition normalizedDataOf :: "RawBubble list \<Rightarrow> Bubble list" where
  "normalizedDataOf rawData =
     (if rawData = [] then []
      else
        let cagrValues = map rbCagr rawData;
            marketShareValues = map rbMarketShare rawData;
            minCagr = max 0 (mathMin cagrValues);
            maxCagr = mathMax cagrValues;
            minShare = mathMin marketShareValues;
            maxShare = mathMax marketShareValues;
            cagrRange = maxCagr - minCagr;
            shareRange = maxShare - minShare;
            sortedByOpportunity = sort_key (\<lambda>b. - rbIncrementalOpportunity b) rawData
        in map (\<lambda>item.
                  \<lparr>rbRegion = rbRegion item, rbCagr = rbCagr item,
                   rbMarketShare = rbMarketShare item,
                   rbIncrementalOpportunity = rbIncrementalOpportunity item,
                   cagrIndex = (if cagrRange > 0 then (rbCagr item - minCagr) / cagrRange * 10
                                else 5.0),
                   marketShareIndex =
                     (if shareRange > 0 then (rbMarketShare item - minShare) / shareRange * 10
                      else 5.0)\<rparr>)
             sortedByOpportunity)"

subsection \<open>Relaxation\<close>

definition minDistance :: real where
  "minDistance = 3.5"

definition maxIterations :: nat where
  "maxIterations = 100"

text \<open>\<^verbatim>\<open>Math.atan2(y, x)\<close> on finite numbers.\<close>

definition atan2 :: "real \<Rightarrow> real \<Rightarrow> real" where
  "atan2 y x =
     (if x > 0 then arctan (y / x)
      else if x < 0 \<and> y \<ge> 0 then arctan (y / x) + pi
      else if x < 0 \<and> y < 0 then arctan (y / x) - pi
      else if y > 0 then pi / 2
      else if y < 0 then - pi / 2
      else 0)"

definition distanceBetween :: "Bubble \<Rightarrow> Bubble \<Rightarrow> real" where
  "distanceBetween bubble other =
     (let dx = cagrIndex bubble - cagrIndex other;
          dy = marketShareIndex bubble - marketShareIndex other
      in sqrt (dx * dx + dy * dy))"

text \<open>
  The body of the inner \<^verbatim>\<open>for\<close> loop for one other bubble, on the variables
  \<^verbatim>\<open>newCagr\<close>, \<^verbatim>\<open>newShare\<close> and \<^verbatim>\<open>hasOverlap\<close>.
\<close>

definition pushFrom :: "Bubble \<Rightarrow> Bubble \<Rightarrow> real \<times> real \<times> bool \<Rightarrow> real \<times> real \<times> bool" where
  "pushFrom bubble other acc =
     (case acc of (newCagr, newShare, hasOverlap) \<Rightarrow>
        let dx = cagrIndex bubble - cagrIndex other;
            dy = marketShareIndex bubble - marketShareIndex other;
            distance = sqrt (dx * dx + dy * dy)
        in if distance < minDistance \<and> distance > 0.001
           then (let angle = atan2 dy dx;
                     pushDistance = (minDistance - distance) * 0.8
                 in (newCagr + cos angle * pushDistance, newShare + sin angle * pushDistance, True))
           else (newCagr, newShare, hasOverlap))"

text \<open>
  The callback of \<^verbatim>\<open>adjustedData.map\<close> for the bubble at index \<open>i\<close>; the flag
  \<^verbatim>\<open>hasOverlap\<close> is shared by all callbacks of one iteration and is passed through.
\<close>

definition adjustBubble :: "Bubble list \<Rightarrow> nat \<Rightarrow> Bubble \<Rightarrow> bool \<Rightarrow> Bubble \<times> bool" where
  "adjustBubble adjustedData i bubble hasOverlap =
     (case foldl (\<lambda>acc j. if i = j then acc else pushFrom bubble (adjustedData ! j) acc)
             (cagrIndex bubble, marketShareIndex bubble, hasOverlap)
             [0 ..< length adjustedData] of
        (newCagr, newShare, hasOverlap') \<Rightarrow>
          (bubble\<lparr>cagrIndex := max (- 2) (min 12 newCagr),
                   marketShareIndex := max (- 2) (min 12 newShare)\<rparr>, hasOverlap'))"

text \<open>One iteration: the new array and the final value of \<^verbatim>\<open>hasOverlap\<close>.\<close>

definition relaxStep :: "Bubble list \<Rightarrow> Bubble list \<times> bool" where
  "relaxStep adjustedData =
     foldl (\<lambda>(out, hasOverlap) (i, bubble).
              (case adjustBubble adjustedData i bubble hasOverlap of
                 (bubble', hasOverlap') \<Rightarrow> (out @ [bubble'], hasOverlap')))
       ([], False) (enumerate 0 adjustedData)"

text \<open>
  The loop \<^verbatim>\<open>for (let iteration = 0; iteration < maxIterations; iteration++)\<close>, from a
  given value of the counter. It returns the array and the counter at the exit: below
  \<open>maxIterations\<close> when the loop was left by \<^verbatim>\<open>break\<close>, equal to it otherwise.
\<close>

function relaxLoop :: "nat \<Rightarrow> Bubble list \<Rightarrow> Bubble list \<times> nat" where
  "relaxLoop iteration adjustedData =
     (if iteration < maxIterations
      then (case relaxStep adjustedData of
              (adjustedData', hasOverlap) \<Rightarrow>
                if \<not> hasOverlap then (adjustedData', iteration)
                else relaxLoop (iteration + 1) adjustedData')
      else (adjustedData, iteration))"
  by pat_completeness auto
termination
  by (relation "measure (\<lambda>(iteration, adjustedData). maxIterations - iteration)") auto

declare relaxLoop.simps [simp del]

text \<open>In the clamp box of the relaxation.\<close>

definition inBox :: "Bubble \<Rightarrow> bool" where
  "inBox b = (- 2 \<le> cagrIndex b \<and> cagrIndex b \<le> 12
              \<and> - 2 \<le> marketShareIndex b \<and> marketShareIndex b \<le> 12)"

text \<open>
  What the inner loop treats as an overlap of two bubbles: closer than \<open>minDistance\<close>,
  and farther apart than 0.001.
\<close>

definition overlapping :: "Bubble \<Rightarrow> Bubble \<Rightarrow> bool" where
  "overlapping bubble other =
     (distanceBetween bubble other < minDistance \<and> distanceBetween bubble other > 0.001)"

text \<open>A bubble at a given position, for the concrete instances below.\<close>

definition bubbleAt :: "string \<Rightarrow> real \<Rightarrow> real \<Rightarrow> Bubble" where
  "bubbleAt name x y =
     \<lparr>rbRegion = name, rbCagr = 0, rbMarketShare = 0, rbIncrementalOpportunity = 0,
      cagrIndex = x, marketShareIndex = y\<rparr>"

text \<open>Two bubbles ten units apart, and two bubbles 0.0005 units apart.\<close>

definition separatedBubbles :: "Bubble list" where
  "separatedBubbles = [bubbleAt ''A'' 0 0, bubbleAt ''B'' 10 0]"

definition closeBubbles :: "Bubble list" where
  "closeBubbles = [bubbleAt ''A'' 5 5, bubbleAt ''B'' 5.0005 5]"

subsection \<open>Category names of a data set\<close>

text \<open>The set of category names a data set yields under a segment type.\<close>

definition categoriesOf :: "string \<Rightarrow> ShovelMarketData list \<Rightarrow> string set" where
  "categoriesOf segmentType recs =
     {c \<in> set (List.map_filter (\<lambda>d. getCategoryValue d segmentType) recs). c \<noteq> []}"

text \<open>
  The pre-layout position of the category of rank \<open>index\<close> among \<open>numItems\<close>
  categories: the pair of \<^verbatim>\<open>cagr\<close> and \<^verbatim>\<open>marketShare\<close> the spacing formula assigns.
\<close>

definition syntheticPosition :: "nat \<Rightarrow> nat \<Rightarrow> real \<times> real" where
  "syntheticPosition numItems index =
     (real index / max 1 (real numItems - 1) * 25,
      jsRem (real index * 1.618) (real numItems) / max 1 (real numItems - 1) * 30)"

section \<open>Shared pieces of the pivot and year-over-year computations\<close>

text \<open>
  \<^verbatim>\<open>String(n)\<close> of an integer \<open>n\<close>: its decimal digits, with a minus sign when negative
  (integers below \<open>10 ^ 21\<close> in magnitude, which covers every year).
\<close>

definition digitChar :: "nat \<Rightarrow> char" where
  "digitChar d = char_of (48 + d)"

function digitsOf :: "nat \<Rightarrow> string" where
  "digitsOf n = (if n < 10 then [digitChar n] else digitsOf (n div 10) @ [digitChar (n mod 10)])"
  by pat_completeness auto
termination
  by (relation "measure (\<lambda>n. n)") auto

declare digitsOf.simps [simp del]

definition stringOfInt :: "int \<Rightarrow> string" where
  "stringOfInt i = (if i < 0 then CHR ''-'' # digitsOf (nat (- i)) else digitsOf (nat i))"

text \<open>Reading a digit string back as a number.\<close>

definition natOfDigits :: "string \<Rightarrow> nat" where
  "natOfDigits s = foldl (\<lambda>a c. a * 10 + (of_char c - 48)) 0 s"

text \<open>\<^verbatim>\<open>[...new Set(xs)]\<close>: the distinct elements in order of first occurrence.\<close>

definition uniq :: "'a list \<Rightarrow> 'a list" where
  "uniq xs = rev (remdups (rev xs))"

text \<open>
  \<^verbatim>\<open>.sort()\<close> without a comparator on an array of numbers: the elements are compared as
  strings. The sort is stable.
\<close>

definition sortDefault :: "int list \<Rightarrow> int list" where
  "sortDefault xs = sort_key stringOfInt xs"

text \<open>\<^verbatim>\<open>x || 0\<close> for a number or \<^verbatim>\<open>undefined\<close> (\<open>None\<close>).\<close>

definition orZero :: "real option \<Rightarrow> real" where
  "orZero v = (case v of None \<Rightarrow> 0 | Some x \<Rightarrow> if x = 0 then 0 else x)"

text \<open>
  \<^verbatim>\<open>obj[key] = v\<close> for a number or a string \<open>v\<close> on a plain object, given by its own
  properties. The name \<^verbatim>\<open>__proto__\<close> is an accessor of the prototype whose setter
  ignores a value that is not an object: nothing is stored. Every other name becomes, or
  updates, an own property.
\<close>

definition objectSet :: "(string \<rightharpoonup> jsval) \<Rightarrow> string \<Rightarrow> jsval \<Rightarrow> (string \<rightharpoonup> jsval)" where
  "objectSet obj key v = (if key = ''__proto__'' then obj else obj(key \<mapsto> v))"



text \<open>Reading a numeric entry of a chart row.\<close>

fun numOf :: "jsval option \<Rightarrow> real" where
  "numOf (Some (JNum x)) = x"
| "numOf v = 0"

section \<open>Pivot: \<^verbatim>\<open>generateSegmentChartData\<close> (src/pages/MarketAnalysis.tsx)\<close>

definition getDataValue :: "string \<Rightarrow> ShovelMarketData \<Rightarrow> real" where
  "getDataValue marketEvaluation d =
     (if marketEvaluation = ''By Volume'' then orZero (Some (volumeUnits d))
      else orZero (Some (marketValueUsd d)) / 1000)"

text \<open>The template string \<^verbatim>\<open>`${year}-${segment}`\<close>.\<close>

definition yearSegmentKey :: "int \<Rightarrow> string \<Rightarrow> string" where
  "yearSegmentKey yr segment = stringOfInt yr @ ''-'' @ segment"

text \<open>\<^verbatim>\<open>const years = [...new Set(filteredData.map(d => d.year))].sort()\<close>\<close>

definition pivotYears :: "ShovelMarketData list \<Rightarrow> int list" where
  "pivotYears filteredData = sortDefault (uniq (map year filteredData))"

text \<open>The map \<^verbatim>\<open>segmentMap\<close> after \<^verbatim>\<open>filteredData.forEach\<close>.\<close>

definition segmentMapOf :: "string \<Rightarrow> (ShovelMarketData \<Rightarrow> string) \<Rightarrow> ShovelMarketData list
     \<Rightarrow> (string \<rightharpoonup> real)" where
  "segmentMapOf marketEvaluation getSegmentValue filteredData =
     foldl (\<lambda>segmentMap d.
              let key = yearSegmentKey (year d) (getSegmentValue d)
              in segmentMap(key \<mapsto> orZero (segmentMap key) + getDataValue marketEvaluation d))
       Map.empty filteredData"

text \<open>
  The helper itself. A row is a plain object, given by its own properties; its entries
  are stored with \<open>objectSet\<close>. The first
  parameter \<^verbatim>\<open>segmentKey\<close> is not used by the source. \<open>selectedSegments = None\<close> is
  \<^verbatim>\<open>undefined\<close>. The result is the pair of \<^verbatim>\<open>chartData\<close> and \<^verbatim>\<open>segments\<close>.
\<close>

definition generateSegmentChartData ::
  "string \<Rightarrow> ShovelMarketData list \<Rightarrow> string \<Rightarrow> (ShovelMarketData \<Rightarrow> string) \<Rightarrow> string list option
     \<Rightarrow> (string \<rightharpoonup> jsval) list \<times> string list" where
  "generateSegmentChartData marketEvaluation filteredData segmentKey getSegmentValue selectedSegments =
     (let segmentsFromData =
            sort (filter (\<lambda>s. s \<noteq> []) (uniq (map getSegmentValue filteredData)));
          segments = (case selectedSegments of
                        Some sel \<Rightarrow> if length sel > 0 then sort (filter (\<lambda>s. s \<noteq> []) sel)
                                    else segmentsFromData
                      | None \<Rightarrow> segmentsFromData);
          segmentMap = segmentMapOf marketEvaluation getSegmentValue filteredData;
          chartData =
            map (\<lambda>yr.
                   foldl (\<lambda>entry segment.
                            objectSet entry segment
                              (JNum (orZero (segmentMap (yearSegmentKey yr segment)))))
                     [''year'' \<mapsto> JStr (stringOfInt yr)] segments)
              (pivotYears filteredData)
      in (chartData, segments))"

section \<open>Year over year: \<^verbatim>\<open>yoyCagrDataByEntity\<close> (src/pages/MarketAnalysis.tsx)\<close>








section \<open>Sample records\<close>

text \<open>
  A record of a given year, service type, market value and volume, for the concrete
  instances below; the other fields are fixed.
\<close>

definition sampleRecord :: "int \<Rightarrow> string \<Rightarrow> real \<Rightarrow> real \<Rightarrow> ShovelMarketData" where
  "sampleRecord yr serviceTy usd vol =
     \<lparr>recordId = 100000, year = yr, region = ''North America'', country = ''U.S.'',
      serviceType = serviceTy, endUserType = ''Public Figures'',
      deliveryChannel = ''Hybrid Engagement'', businessModel = ''Licensing / Affiliate Programs'',
      productType = ''Slow Pyrolysis'', bladeMaterial = ''Bamboo'',
      handleLength = ''Industrial Grade'', application = ''Liquid'',
      endUser = ''Food & Beverage'', distributionChannelType = ''Direct'',
      distributionChannel = ''Natural Flavoring'', brand = ''Ames'', company = ''Garant GP'',
      price = 10, volumeUnits = vol, qty = vol, revenue = usd, marketValueUsd = usd,
      value' = usd, marketSharePct = 1, cagr = 1, yoyGrowth = 1\<rparr>"



text \<open>
  A conversion to text for the concrete instances of the filter: the decimal digits of a
  whole number.
\<close>

definition sampleHostString :: "jsval \<Rightarrow> string" where
  "sampleHostString v = (case v of JNum x \<Rightarrow> stringOfInt \<lfloor>x\<rfloor> | _ \<Rightarrow> [])"


definition pivotData :: "ShovelMarketData list" where
  "pivotData = [sampleRecord 2024 ''A'' 1000 4, sampleRecord 2024 ''B'' 3000 5,
                sampleRecord 2025 ''A'' 2000 6]"

section \<open>Decimal text of the sample years\<close>

lemma digits_2024: "digitsOf 2024 = ''2024''" "digitsOf 2025 = ''2025''"
  by code_simp+

lemma string_years: "stringOfInt 2024 = ''2024''" "stringOfInt 2025 = ''2025''"
  by (simp_all add: stringOfInt_def digits_2024)

section \<open>Properties of the filter engine\<close>

lemma filterStep_is_filter:
  "\<exists>P. \<forall>xs. filterStep hostString xs e = filter P xs"
proof (cases e)
  case (Pair field vo)
  show ?thesis
  proof (cases vo)
    case None
    have "\<forall>xs. filterStep hostString xs e = filter (\<lambda>_. True) xs"
      using Pair None by simp
    then show ?thesis by blast
  next
    case (Some vs)
    show ?thesis
    proof (cases "length vs > 0")
      case True
      have "\<forall>xs. filterStep hostString xs e = filter (keepItem hostString field vs) xs"
        using Pair Some True by simp
      then show ?thesis by blast
    next
      case False
      have "\<forall>xs. filterStep hostString xs e = filter (\<lambda>_. True) xs"
        using Pair Some False by simp
      then show ?thesis by blast
    qed
  qed
qed

lemma filterStep_commute:
  "filterStep n (filterStep n xs e1) e2 = filterStep n (filterStep n xs e2) e1"
proof -
  obtain P where P: "\<forall>xs. filterStep n xs e1 = filter P xs"
    using filterStep_is_filter by blast
  obtain Q where Q: "\<forall>xs. filterStep n xs e2 = filter Q xs"
    using filterStep_is_filter by blast
  show ?thesis
    by (simp add: P Q conj_commute)
qed

lemma filterDataframe_single:
  "vs \<noteq> [] \<Longrightarrow> filterDataframe n recs [(f, Some vs)] = filter (keepItem n f vs) recs"
  by (simp add: filterDataframe_def)

lemma filterDataframe_pair:
  "v1 \<noteq> [] \<Longrightarrow> v2 \<noteq> [] \<Longrightarrow>
   filterDataframe n recs [(f1, Some v1), (f2, Some v2)]
     = filter (\<lambda>item. keepItem n f1 v1 item \<and> keepItem n f2 v2 item) recs"
  by (simp add: filterDataframe_def conj_commute)

lemma filterDataframe_unrestricted:
  "filterDataframe n recs [(f, None)] = recs" "filterDataframe n recs [(f, Some [])] = recs"
  by (simp_all add: filterDataframe_def)

lemma getField_year: "getField item ''year'' = JNum (of_int (year item))"
  by (simp add: getField_def)

lemma keepItem_year:
  "keepItem n ''year'' vs item = (jsString n (JNum (of_int (year item))) \<in> jsString n ` set vs)"
  by (simp add: keepItem_def Let_def getField_year arrayIncludes_def)

lemma keepItem_other:
  "f \<noteq> ''year'' \<Longrightarrow> keepItem n f vs item = (getField item f \<in> set vs)"
  by (simp add: keepItem_def Let_def arrayIncludes_def)

lemma getField_serviceType: "getField item ''serviceType'' = JStr (serviceType item)"
  by (simp add: getField_def)

text \<open>
  Claim C3. Two single-dimension inclusion constraints \<open>(f1, vs1)\<close> and \<open>(f2, vs2)\<close>:
  filtering with one and then with the other gives the same list as filtering once with
  the filter object that holds both, and the order of the two does not matter. With two
  non-empty value lists the result is the list of the records that pass both tests, in
  their order; a record passes the test of a field other than the year when its value of
  the field is a member of the list, and the test of the year when the text of its year
  is among the texts of the list; an absent or empty list keeps every record.
\<close>

theorem filterDataframe_composition:
  "filterDataframe n (filterDataframe n recs [(f1, vs1)]) [(f2, vs2)]
     = filterDataframe n recs [(f1, vs1), (f2, vs2)]
   \<and> filterDataframe n (filterDataframe n recs [(f2, vs2)]) [(f1, vs1)]
     = filterDataframe n recs [(f1, vs1), (f2, vs2)]
   \<and> filterDataframe n recs [(f2, vs2), (f1, vs1)]
     = filterDataframe n recs [(f1, vs1), (f2, vs2)]
   \<and> (v1 \<noteq> [] \<and> v2 \<noteq> [] \<longrightarrow>
        filterDataframe n recs [(f1, Some v1), (f2, Some v2)]
          = filter (\<lambda>item. keepItem n f1 v1 item \<and> keepItem n f2 v2 item) recs)
   \<and> (f1 \<noteq> ''year'' \<longrightarrow> keepItem n f1 v1 item = (getField item f1 \<in> set v1))
   \<and> keepItem n ''year'' v1 item
        = (jsString n (JNum (of_int (year item))) \<in> jsString n ` set v1)
   \<and> filterDataframe n recs [(f1, None)] = recs
   \<and> filterDataframe n recs [(f1, Some [])] = recs"
proof -
  have a: "filterDataframe n (filterDataframe n recs [(f1, vs1)]) [(f2, vs2)]
     = filterDataframe n recs [(f1, vs1), (f2, vs2)]"
    by (simp add: filterDataframe_def)
  have b: "filterDataframe n (filterDataframe n recs [(f2, vs2)]) [(f1, vs1)]
     = filterDataframe n recs [(f1, vs1), (f2, vs2)]"
    by (simp add: filterDataframe_def filterStep_commute [of n recs "(f1, vs1)" "(f2, vs2)"])
  have c: "filterDataframe n recs [(f2, vs2), (f1, vs1)]
     = filterDataframe n recs [(f1, vs1), (f2, vs2)]"
    by (simp add: filterDataframe_def filterStep_commute [of n recs "(f1, vs1)" "(f2, vs2)"])
  have d: "v1 \<noteq> [] \<and> v2 \<noteq> [] \<longrightarrow>
        filterDataframe n recs [(f1, Some v1), (f2, Some v2)]
          = filter (\<lambda>item. keepItem n f1 v1 item \<and> keepItem n f2 v2 item) recs"
    using filterDataframe_pair by blast
  have e: "f1 \<noteq> ''year'' \<longrightarrow> keepItem n f1 v1 item = (getField item f1 \<in> set v1)"
    using keepItem_other by blast
  show ?thesis
    by (rule conjI [OF a conjI [OF b conjI [OF c conjI [OF d conjI [OF e
          conjI [OF keepItem_year conjI [OF filterDataframe_unrestricted]]]]]]])
qed

text \<open>
  The three sample records of 2024 (A and B) and 2025 (A), filtered by service type A and
  by the year given as the text 2024, in both orders and at once: the record of A in 2024.
\<close>

theorem filterDataframe_composition_witness:
  "[JStr ''A''] \<noteq> [] \<and> [JStr ''2024''] \<noteq> []
   \<and> filterDataframe sampleHostString pivotData
        [(''serviceType'', Some [JStr ''A'']), (''year'', Some [JStr ''2024''])]
       = [sampleRecord 2024 ''A'' 1000 4]
   \<and> filterDataframe sampleHostString
        (filterDataframe sampleHostString pivotData [(''year'', Some [JStr ''2024''])])
        [(''serviceType'', Some [JStr ''A''])]
       = [sampleRecord 2024 ''A'' 1000 4]"
proof -
  note t = filterDataframe_composition [of sampleHostString pivotData "''serviceType''"
      "Some [JStr ''A'']" "''year''" "Some [JStr ''2024'']" "[JStr ''A'']" "[JStr ''2024'']"]
  have ne: "[JStr ''A''] \<noteq> [] \<and> [JStr ''2024''] \<noteq> []" by simp
  have k1: "\<And>y s u v. keepItem sampleHostString ''serviceType'' [JStr ''A''] (sampleRecord y s u v)
      = (s = ''A'')"
    by (simp add: keepItem_other getField_serviceType sampleRecord_def)
  have k2: "\<And>y s u v. keepItem sampleHostString ''year'' [JStr ''2024''] (sampleRecord y s u v)
      = (stringOfInt y = ''2024'')"
    by (simp add: keepItem_year sampleHostString_def sampleRecord_def)
  have pair: "filterDataframe sampleHostString pivotData
        [(''serviceType'', Some [JStr ''A'']), (''year'', Some [JStr ''2024''])]
      = filter (\<lambda>item. keepItem sampleHostString ''serviceType'' [JStr ''A''] item
                     \<and> keepItem sampleHostString ''year'' [JStr ''2024''] item) pivotData"
    using t ne by blast
  have r: "filter (\<lambda>item. keepItem sampleHostString ''serviceType'' [JStr ''A''] item
                     \<and> keepItem sampleHostString ''year'' [JStr ''2024''] item) pivotData
      = [sampleRecord 2024 ''A'' 1000 4]"
    by (simp add: pivotData_def k1 k2 string_years)
  have seq: "filterDataframe sampleHostString
        (filterDataframe sampleHostString pivotData [(''year'', Some [JStr ''2024''])])
        [(''serviceType'', Some [JStr ''A''])]
      = filterDataframe sampleHostString pivotData
        [(''serviceType'', Some [JStr ''A'']), (''year'', Some [JStr ''2024''])]"
    using t by blast
  show ?thesis using ne pair r seq by simp
qed

section \<open>Properties of the synthesizer\<close>

lemma seededRandom_fst: "fst (seededRandom st) = real ((seed st * 9301 + 49297) mod 233280) / 233280"
  by (simp only: seededRandom_def Let_def fst_conv)

lemma seededRandom_snd: "snd (seededRandom st) = st\<lparr>seed := (seed st * 9301 + 49297) mod 233280\<rparr>"
  by (simp only: seededRandom_def Let_def snd_conv)

lemma seededRandom_range: "0 \<le> fst (seededRandom st) \<and> fst (seededRandom st) < 1"
proof -
  define k where "k = (seed st * 9301 + 49297) mod 233280"
  have "k < 233280" unfolding k_def by (rule mod_less_divisor) simp
  then have "real k < 233280" by simp
  then have "real k / 233280 < 1" by simp
  moreover have "0 \<le> real k / 233280" by simp
  ultimately show ?thesis unfolding seededRandom_fst k_def by simp
qed

lemma seededRandom_keeps:
  "data (snd (seededRandom st)) = data st" "nextId (snd (seededRandom st)) = nextId st"
proof -
  have "\<And>k. data (st\<lparr>seed := k\<rparr>) = data st \<and> nextId (st\<lparr>seed := k\<rparr>) = nextId st"
    by simp
  then show "data (snd (seededRandom st)) = data st" "nextId (snd (seededRandom st)) = nextId st"
    unfolding seededRandom_snd by blast+
qed

lemma pickAt_mem: "pickAt xs r = Some x \<Longrightarrow> x \<in> set xs"
proof -
  assume a: "pickAt xs r = Some x"
  define i where "i = \<lfloor>r * real (length xs)\<rfloor>"
  from a have b: "0 \<le> i \<and> i < int (length xs) \<and> x = xs ! nat i"
    by (auto simp: pickAt_def Let_def i_def split: if_splits)
  then have "nat i < length xs" by linarith
  then show ?thesis using b by simp
qed

lemma pickAt_Some:
  assumes "0 \<le> r" "r < 1" "xs \<noteq> []"
  shows "\<exists>x. pickAt xs r = Some x"
proof -
  have n: "0 < real (length xs)" using assms(3) by simp
  have "0 \<le> r * real (length xs)" using assms(1) by simp
  then have lo: "0 \<le> \<lfloor>r * real (length xs)\<rfloor>" by simp
  have "r * real (length xs) < real (length xs)" using assms(2) n by simp
  then have hi: "\<lfloor>r * real (length xs)\<rfloor> < int (length xs)"
    by (simp add: floor_less_iff)
  show ?thesis using lo hi by (simp add: pickAt_def Let_def)
qed

lemma pickAt_random:
  assumes "xs \<noteq> []"
  shows "\<exists>x. pickAt xs (fst (seededRandom st)) = Some x \<and> x \<in> set xs"
proof -
  obtain x where x: "pickAt xs (fst (seededRandom st)) = Some x"
    using pickAt_Some [of "fst (seededRandom st)" xs] seededRandom_range [of st] assms by blast
  with pickAt_mem [OF x] show ?thesis by blast
qed

lemma bind_pickAt:
  assumes "xs \<noteq> []" and "\<And>x. x \<in> set xs \<Longrightarrow> \<exists>st'. f x = Some st' \<and> Q st'"
  shows "\<exists>st'. Option.bind (pickAt xs (fst (seededRandom st))) f = Some st' \<and> Q st'"
proof -
  obtain x where "pickAt xs (fst (seededRandom st)) = Some x" "x \<in> set xs"
    using pickAt_random [OF assms(1)] by blast
  then show ?thesis using assms(2) by simp
qed

lemma bind_lookup:
  assumes "\<exists>m. t = Some m" and "\<And>m. t = Some m \<Longrightarrow> \<exists>st'. f m = Some st' \<and> Q st'"
  shows "\<exists>st'. Option.bind t f = Some st' \<and> Q st'"
  using assms by auto

lemma productTypeMultipliers_total: "x \<in> set productTypes \<Longrightarrow> \<exists>m. productTypeMultipliers x = Some m"
  by (auto simp: productTypes_def productTypeMultipliers_def)

lemma bladeMaterialMultipliers_total: "x \<in> set bladeMaterials \<Longrightarrow> \<exists>m. bladeMaterialMultipliers x = Some m"
  by (auto simp: bladeMaterials_def bladeMaterialMultipliers_def)

lemma applicationMultipliers_total: "x \<in> set applications \<Longrightarrow> \<exists>m. applicationMultipliers x = Some m"
  by (auto simp: applications_def applicationMultipliers_def)

lemma endUserMultipliers_total: "x \<in> set endUsers \<Longrightarrow> \<exists>m. endUserMultipliers x = Some m"
  by (auto simp: endUsers_def endUserMultipliers_def)

lemma regionMultipliers_total: "x \<in> set regions \<Longrightarrow> \<exists>m. regionMultipliers x = Some m"
  by (auto simp: regions_def regionMultipliers_def)

lemma nonempty: "productTypes \<noteq> []" "bladeMaterials \<noteq> []" "handleLengths \<noteq> []" "applications \<noteq> []" "endUsers \<noteq> []" "brands \<noteq> []" "companies \<noteq> []"
  by (simp_all add: productTypes_def bladeMaterials_def handleLengths_def applications_def endUsers_def brands_def companies_def)


lemma emit_final:
  assumes "data S = data st0" "nextId S = nextId st0" "recordId R = nextId S"
    "year R = yr" "region R = reg" "country R = c" "serviceType R = s" "endUserType R = e"
    "deliveryChannel R = d" "businessModel R = b" "subtypeInvariant R"
  shows "\<exists>st'. Some (S\<lparr>data := data S @ [R], nextId := nextId S + 1\<rparr>) = Some st'
           \<and> emitted st0 (yr, reg, c, s, e, d, b) st'"
  using assms by (simp add: emitted_def comboOf_def)

lemma generateRecord_run:
  "\<exists>st'. generateRecord yr reg (Some rm) c s e d b st0 = Some st' \<and> emitted st0 (yr, reg, c, s, e, d, b) st'"
  unfolding generateRecord_def
  apply (simp only: Let_def split_def)
  apply (rule bind_pickAt, rule nonempty)
  apply (rule bind_pickAt, rule nonempty)
  apply (rule bind_pickAt, rule nonempty)
  apply (rule bind_pickAt, rule nonempty)
  apply (rule bind_pickAt, rule nonempty)
  subgoal for productTy bladeMat handleLen app endUsr
    apply (cases "subtypesOf endUsr = []")
    subgoal
      apply (simp only: list.size if_False less_irrefl bind.bind_lunit prod.case fst_conv snd_conv)
      apply (rule bind_pickAt, rule nonempty)
      apply (rule bind_pickAt, rule nonempty)
      apply (rule bind_lookup, erule productTypeMultipliers_total)
      apply (rule bind_lookup, erule bladeMaterialMultipliers_total)
      apply (rule bind_lookup, erule applicationMultipliers_total)
      apply (rule bind_lookup, erule endUserMultipliers_total)
      apply (rule emit_final)
      apply (simp_all only: ShovelMarketData.select_convs seededRandom_keeps subtypeInvariant_def if_False simp_thms)
      done
    subgoal
      apply (simp only: length_greater_0_conv if_True simp_thms Option.bind_map_option o_def  prod.case fst_conv snd_conv)
      apply (rule bind_pickAt, assumption)
      apply (simp only:  fst_conv snd_conv bind.bind_lunit)
      apply (rule bind_pickAt, rule nonempty)
      apply (rule bind_pickAt, rule nonempty)
      apply (rule bind_lookup, erule productTypeMultipliers_total)
      apply (rule bind_lookup, erule bladeMaterialMultipliers_total)
      apply (rule bind_lookup, erule applicationMultipliers_total)
      apply (rule bind_lookup, erule endUserMultipliers_total)
      apply (rule emit_final)
      apply (simp_all only: ShovelMarketData.select_convs seededRandom_keeps subtypeInvariant_def if_True simp_thms)
      done
    done
  done

lemma generateRecord_emits:
  "emits (generateRecord yr reg (Some rm) c s e d b) [(yr, reg, c, s, e, d, b)]"
  unfolding emits_def
proof
  fix st
  obtain st' rec where r: "generateRecord yr reg (Some rm) c s e d b st = Some st'"
    "data st' = data st @ [rec]" "nextId st' = nextId st + 1" "recordId rec = nextId st"
    "comboOf rec = (yr, reg, c, s, e, d, b)" "subtypeInvariant rec"
    using generateRecord_run [of yr reg rm c s e d b st] unfolding emitted_def by blast
  have "map comboOf [rec] = [(yr, reg, c, s, e, d, b)]" using r(5) by simp
  moreover have "map recordId [rec] = [nextId st ..< nextId st + length [(yr, reg, c, s, e, d, b)]]"
    using r(4) by simp
  moreover have "list_all subtypeInvariant [rec]" using r(6) by simp
  moreover have "nextId st' = nextId st + length [(yr, reg, c, s, e, d, b)]" using r(3) by simp
  ultimately show "\<exists>st' new. generateRecord yr reg (Some rm) c s e d b st = Some st'
      \<and> data st' = data st @ new
      \<and> nextId st' = nextId st + length [(yr, reg, c, s, e, d, b)]
      \<and> map comboOf new = [(yr, reg, c, s, e, d, b)]
      \<and> map recordId new = [nextId st ..< nextId st + length [(yr, reg, c, s, e, d, b)]]
      \<and> list_all subtypeInvariant new"
    using r(1,2) by (intro exI [of _ st'] exI [of _ "[rec]"]) simp
qed

lemma upt_split: "[n ..< n + (a + b)] = [n ..< n + a] @ [n + a ..< n + a + b]" for n a b :: nat
  using upt_add_eq_append [of n "n + a" b] by (simp add: add.assoc)

lemma forEach_emits:
  assumes "\<And>x. x \<in> set xs \<Longrightarrow> emits (body x) (ks x)"
  shows "emits (forEach body xs) (concat (map ks xs))"
  using assms
proof (induction xs)
  case Nil
  show ?case by (simp add: emits_def)
next
  case (Cons x xs)
  have hx: "emits (body x) (ks x)" using Cons.prems by simp
  have hxs: "emits (forEach body xs) (concat (map ks xs))"
    using Cons.IH Cons.prems by simp
  show ?case
    unfolding emits_def
  proof
    fix st
    obtain st1 new1 where 1: "body x st = Some st1" "data st1 = data st @ new1"
      "nextId st1 = nextId st + length (ks x)" "map comboOf new1 = ks x"
      "map recordId new1 = [nextId st ..< nextId st + length (ks x)]"
      "list_all subtypeInvariant new1"
      using hx unfolding emits_def by blast
    obtain st2 new2 where 2: "forEach body xs st1 = Some st2" "data st2 = data st1 @ new2"
      "nextId st2 = nextId st1 + length (concat (map ks xs))"
      "map comboOf new2 = concat (map ks xs)"
      "map recordId new2 = [nextId st1 ..< nextId st1 + length (concat (map ks xs))]"
      "list_all subtypeInvariant new2"
      using hxs unfolding emits_def by blast
    let ?K = "concat (map ks (x # xs))"
    have len: "length ?K = length (ks x) + length (concat (map ks xs))" by simp
    have a: "forEach body (x # xs) st = Some st2" using 1(1) 2(1) by simp
    have b: "data st2 = data st @ (new1 @ new2)" using 1(2) 2(2) by simp
    have c: "nextId st2 = nextId st + length ?K" using 1(3) 2(3) len by simp
    have d: "map comboOf (new1 @ new2) = ?K" using 1(4) 2(4) by simp
    have "[nextId st ..< nextId st + length ?K]
        = [nextId st ..< nextId st + length (ks x)] @ [nextId st1 ..< nextId st1 + length (concat (map ks xs))]"
      unfolding len 1(3) by (rule upt_split)
    then have e: "map recordId (new1 @ new2) = [nextId st ..< nextId st + length ?K]"
      using 1(5) 2(5) by simp
    have f: "list_all subtypeInvariant (new1 @ new2)" using 1(6) 2(6) by simp
    show "\<exists>st' new. forEach body (x # xs) st = Some st' \<and> data st' = data st @ new
        \<and> nextId st' = nextId st + length ?K \<and> map comboOf new = ?K
        \<and> map recordId new = [nextId st ..< nextId st + length ?K]
        \<and> list_all subtypeInvariant new"
      using a b c d e f by (intro exI [of _ st2] exI [of _ "new1 @ new2"]) simp
  qed
qed

lemma regionLoop_emits:
  assumes "reg \<in> set regions"
  shows "emits (regionLoop yr reg)
     (concat (map (\<lambda>ctry.
       concat (map (\<lambda>serviceTy. concat (map (\<lambda>endUserTy. concat (map (\<lambda>deliveryCh.
         concat (map (\<lambda>businessMo.
           [(yr, reg, ctry, serviceTy, endUserTy, deliveryCh, businessMo)])
         businessModels)) deliveryChannels)) endUserTypes)) serviceTypes))
       (countriesOf reg)))"
proof -
  obtain rm where rm: "regionMultipliers reg = Some rm"
    using regionMultipliers_total [OF assms] by blast
  show ?thesis
    unfolding regionLoop_def Let_def rm
    by (intro forEach_emits generateRecord_emits)
qed

lemma generate_emits:
  "emits (forEach (\<lambda>yr. forEach (\<lambda>reg. regionLoop yr reg) regions) years) allCombinations"
  unfolding allCombinations_def
  by (intro forEach_emits regionLoop_emits)

lemma length_lists:
  "length years = 15" "length serviceTypes = 7" "length endUserTypes = 7"
  "length deliveryChannels = 3" "length businessModels = 6"
  by (simp_all add: years_def serviceTypes_def endUserTypes_def deliveryChannels_def businessModels_def)

lemma length_concat_map: "length (concat (map f xs)) = sum_list (map (\<lambda>x. length (f x)) xs)"
  by (simp add: length_concat comp_def)

lemma sum_list_const: "sum_list (map (\<lambda>x. (k::nat)) xs) = length xs * k"
  by (induction xs) simp_all

lemma length_perCountry:
  "length (concat (map (\<lambda>serviceTy. concat (map (\<lambda>endUserTy. concat (map (\<lambda>deliveryCh.
         concat (map (\<lambda>businessMo.
           [(yr, reg, ctry, serviceTy, endUserTy, deliveryCh, businessMo)])
         businessModels)) deliveryChannels)) endUserTypes)) serviceTypes)) = 882"
  by (simp only: length_concat_map sum_list_const length_lists list.size) simp

lemma length_countries:
  "sum_list (map (\<lambda>reg. length (countriesOf reg)) regions) = 20"
  by (simp add: regions_def countriesOf_def countryMap_def)

lemma length_allCombinations: "length allCombinations = 264600"
proof -
  have "length allCombinations
      = sum_list (map (\<lambda>yr::int. sum_list (map (\<lambda>reg. sum_list (map (\<lambda>ctry::string. 882::nat) (countriesOf reg))) regions)) years)"
    unfolding allCombinations_def
    by (simp only: length_concat_map [where xs = years] length_concat_map [where xs = regions]
        length_concat_map [where xs = "countriesOf _"] length_perCountry)
  also have "\<dots> = 264600"
    by (simp only: sum_list_const length_lists sum_list_mult_const length_countries)
  finally show ?thesis .
qed

lemma seed_step: "seed (snd (seededRandom st)) = (seed st * 9301 + 49297) mod 233280"
proof -
  have "\<And>k. seed (st\<lparr>seed := k\<rparr>) = k" by simp
  then show ?thesis unfolding seededRandom_snd by blast
qed

lemma e1: "seed (snd (seededRandom initialState)) = 206659"
  using seed_step [of initialState] by (simp add: initialState_def)

lemma e2: "seed (snd (seededRandom (snd (seededRandom initialState)))) = 190736"
  using seed_step [of "(snd (seededRandom initialState))"] e1 by (simp add: initialState_def)

lemma e3: "seed (snd (seededRandom (snd (seededRandom (snd (seededRandom initialState)))))) = 223713"
  using seed_step [of "(snd (seededRandom (snd (seededRandom initialState))))"] e2 by (simp add: initialState_def)

lemma e4: "seed (snd (seededRandom (snd (seededRandom (snd (seededRandom (snd (seededRandom initialState)))))))) = 179590"
  using seed_step [of "(snd (seededRandom (snd (seededRandom (snd (seededRandom initialState))))))"] e3 by (simp add: initialState_def)

lemma e5: "seed (snd (seededRandom (snd (seededRandom (snd (seededRandom (snd (seededRandom (snd (seededRandom initialState)))))))))) = 131087"
  using seed_step [of "(snd (seededRandom (snd (seededRandom (snd (seededRandom (snd (seededRandom initialState))))))))"] e4 by (simp add: initialState_def)

lemma e6: "seed (snd (seededRandom (snd (seededRandom (snd (seededRandom (snd (seededRandom (snd (seededRandom (snd (seededRandom initialState)))))))))))) = 168204"
  using seed_step [of "(snd (seededRandom (snd (seededRandom (snd (seededRandom (snd (seededRandom (snd (seededRandom initialState))))))))))"] e5 by (simp add: initialState_def)

lemma e7: "seed (snd (seededRandom (snd (seededRandom (snd (seededRandom (snd (seededRandom (snd (seededRandom (snd (seededRandom (snd (seededRandom initialState)))))))))))))) = 139021"
  using seed_step [of "(snd (seededRandom (snd (seededRandom (snd (seededRandom (snd (seededRandom (snd (seededRandom (snd (seededRandom initialState))))))))))))"] e6 by (simp add: initialState_def)


lemma pick5: "pickAt endUsers (fst (seededRandom (snd (seededRandom (snd (seededRandom (snd (seededRandom (snd (seededRandom initialState)))))))))) = Some ''Pharmaceuticals & Healthcare''"
  unfolding seededRandom_fst e4 by (simp add: pickAt_def endUsers_def)

lemma pick7: "pickAt [''Antiseptic'', ''Detoxification Agent''] (fst (seededRandom (snd (seededRandom (snd (seededRandom (snd (seededRandom (snd (seededRandom (snd (seededRandom (snd (seededRandom initialState)))))))))))))) = Some ''Detoxification Agent''"
  unfolding seededRandom_fst e6 by (simp add: pickAt_def)

lemma bind_pickAt_eq:
  assumes "pickAt xs r = Some x" and "\<exists>st'. f x = Some st' \<and> Q st'"
  shows "\<exists>st'. Option.bind (pickAt xs r) f = Some st' \<and> Q st'"
  using assms by simp

lemma subtypesOf_pharma:
  "subtypesOf ''Pharmaceuticals & Healthcare'' = [''Antiseptic'', ''Detoxification Agent'']"
  by (simp add: subtypesOf_def applicationSubtypes_def)

lemma first_final:
  assumes "data S = []" "endUser R = X" "distributionChannel R = Y"
  shows "\<exists>st'. Some (S\<lparr>data := data S @ [R], nextId := nextId S + 1\<rparr>) = Some st'
     \<and> data st' \<noteq> [] \<and> endUser (hd (data st')) = X \<and> distributionChannel (hd (data st')) = Y"
  using assms by simp

lemma data_initialState: "data initialState = []"
  by (simp add: initialState_def)

lemma first_record:
  "\<exists>st'. generateRecord yr reg (Some rm) c s e d b initialState = Some st' \<and> data st' \<noteq> []
     \<and> endUser (hd (data st')) = ''Pharmaceuticals & Healthcare''
     \<and> distributionChannel (hd (data st')) = ''Detoxification Agent''"
  unfolding generateRecord_def
  apply (simp only: Let_def split_def)
  apply (rule bind_pickAt, rule nonempty)
  apply (rule bind_pickAt, rule nonempty)
  apply (rule bind_pickAt, rule nonempty)
  apply (rule bind_pickAt, rule nonempty)
  apply (rule bind_pickAt_eq, rule pick5)
  apply (simp only: subtypesOf_pharma length_greater_0_conv if_True simp_thms list.distinct
           Option.bind_map_option o_def prod.case fst_conv snd_conv)
  apply (rule bind_pickAt_eq, rule pick7)
  apply (simp only: fst_conv snd_conv bind.bind_lunit)
  apply (rule bind_pickAt, rule nonempty)
  apply (rule bind_pickAt, rule nonempty)
  apply (rule bind_lookup, erule productTypeMultipliers_total)
  apply (rule bind_lookup, erule bladeMaterialMultipliers_total)
  apply (rule bind_lookup, erule applicationMultipliers_total)
  apply (rule bind_lookup, rule endUserMultipliers_total, simp add: endUsers_def)
  apply (rule first_final)
  apply (simp_all only: ShovelMarketData.select_convs seededRandom_keeps data_initialState)
  done

lemma forEach_first:
  assumes "xs \<noteq> []"
    and "\<exists>st1. body (hd xs) st = Some st1 \<and> data st1 \<noteq> [] \<and> P (hd (data st1))"
    and "\<And>y. y \<in> set xs \<Longrightarrow> emits (body y) (ks y)"
  shows "\<exists>st'. forEach body xs st = Some st' \<and> data st' \<noteq> [] \<and> P (hd (data st'))"
proof -
  obtain x xs' where xs: "xs = x # xs'" using assms(1) by (cases xs) auto
  obtain st1 where 1: "body x st = Some st1" "data st1 \<noteq> []" "P (hd (data st1))"
    using assms(2) xs by auto
  have "emits (forEach body xs') (concat (map ks xs'))"
    by (rule forEach_emits) (simp add: assms(3) xs)
  then obtain st2 new where 2: "forEach body xs' st1 = Some st2" "data st2 = data st1 @ new"
    unfolding emits_def by blast
  have "forEach body xs st = Some st2" using xs 1(1) 2(1) by simp
  moreover have "data st2 \<noteq> []" "hd (data st2) = hd (data st1)" using 1(2) 2(2) by simp_all
  ultimately show ?thesis using 1(3) by simp
qed

lemma nonempty_loops:
  "businessModels \<noteq> []" "deliveryChannels \<noteq> []" "endUserTypes \<noteq> []" "serviceTypes \<noteq> []"
  "regions \<noteq> []" "years \<noteq> []" "countriesOf (hd regions) \<noteq> []"
  by (simp_all add: businessModels_def deliveryChannels_def endUserTypes_def serviceTypes_def
      regions_def years_def countriesOf_def countryMap_def upt_rec)

lemma regionLoop_first:
  "\<exists>st'. regionLoop yr (hd regions) initialState = Some st' \<and> data st' \<noteq> []
     \<and> endUser (hd (data st')) = ''Pharmaceuticals & Healthcare''
     \<and> distributionChannel (hd (data st')) = ''Detoxification Agent''"
proof -
  have "hd regions \<in> set regions" using nonempty_loops(5) by simp
  then obtain rm where rm: "regionMultipliers (hd regions) = Some rm"
    using regionMultipliers_total by blast
  show ?thesis
    unfolding regionLoop_def Let_def rm
    apply (rule forEach_first [where P = "\<lambda>r. endUser r = ''Pharmaceuticals & Healthcare'' \<and> distributionChannel r = ''Detoxification Agent''"], rule nonempty_loops)
     apply (rule forEach_first [where P = "\<lambda>r. endUser r = ''Pharmaceuticals & Healthcare'' \<and> distributionChannel r = ''Detoxification Agent''"], rule nonempty_loops)
      apply (rule forEach_first [where P = "\<lambda>r. endUser r = ''Pharmaceuticals & Healthcare'' \<and> distributionChannel r = ''Detoxification Agent''"], rule nonempty_loops)
       apply (rule forEach_first [where P = "\<lambda>r. endUser r = ''Pharmaceuticals & Healthcare'' \<and> distributionChannel r = ''Detoxification Agent''"], rule nonempty_loops)
        apply (rule forEach_first [where P = "\<lambda>r. endUser r = ''Pharmaceuticals & Healthcare'' \<and> distributionChannel r = ''Detoxification Agent''"], rule nonempty_loops)
         apply (rule first_record)
        apply (rule generateRecord_emits)
       apply (rule forEach_emits, rule generateRecord_emits)
      apply (rule forEach_emits, rule forEach_emits, rule generateRecord_emits)
     apply (rule forEach_emits, rule forEach_emits, rule forEach_emits, rule generateRecord_emits)
    apply (rule forEach_emits, rule forEach_emits, rule forEach_emits, rule forEach_emits,
        rule generateRecord_emits)
    done
qed

lemma generate_first:
  "\<exists>st'. forEach (\<lambda>yr. forEach (\<lambda>reg. regionLoop yr reg) regions) years initialState = Some st'
     \<and> data st' \<noteq> []
     \<and> endUser (hd (data st')) = ''Pharmaceuticals & Healthcare''
     \<and> distributionChannel (hd (data st')) = ''Detoxification Agent''"
  apply (rule forEach_first [where P = "\<lambda>r. endUser r = ''Pharmaceuticals & Healthcare'' \<and> distributionChannel r = ''Detoxification Agent''"], rule nonempty_loops)
   apply (rule forEach_first [where P = "\<lambda>r. endUser r = ''Pharmaceuticals & Healthcare'' \<and> distributionChannel r = ''Detoxification Agent''"], rule nonempty_loops)
    apply (rule regionLoop_first)
   apply (erule regionLoop_emits)
  apply (rule forEach_emits, erule regionLoop_emits)
  done

lemma generate_result:
  "\<exists>d. generateComprehensiveData = Some d \<and> length d = 264600
     \<and> map recordId d = [100000 ..< 364600] \<and> map comboOf d = allCombinations
     \<and> list_all subtypeInvariant d"
proof -
  obtain st' new where r:
    "forEach (\<lambda>yr. forEach (\<lambda>reg. regionLoop yr reg) regions) years initialState = Some st'"
    "data st' = data initialState @ new"
    "map comboOf new = allCombinations"
    "map recordId new = [nextId initialState ..< nextId initialState + length allCombinations]"
    "list_all subtypeInvariant new"
    using generate_emits unfolding emits_def by blast
  have d: "data st' = new" using r(2) by (simp add: data_initialState)
  have "length (map comboOf new) = 264600" unfolding r(3) by (rule length_allCombinations)
  then have len: "length new = 264600" by simp
  have n: "nextId initialState = 100000" by (simp add: initialState_def)
  have s: "(100000::nat) + 264600 = 364600" by simp
  have ids: "map recordId new = [100000 ..< 364600]"
    using r(4) unfolding n length_allCombinations s .
  have "generateComprehensiveData = Some new"
    unfolding generateComprehensiveData_def r(1) using d by simp
  then show ?thesis using len ids r(3,5) by blast
qed

lemma generate_hd:
  "\<exists>d. generateComprehensiveData = Some d \<and> d \<noteq> []
     \<and> endUser (hd d) = ''Pharmaceuticals & Healthcare''
     \<and> distributionChannel (hd d) = ''Detoxification Agent''"
proof -
  obtain st' where "forEach (\<lambda>yr. forEach (\<lambda>reg. regionLoop yr reg) regions) years initialState = Some st'"
    "data st' \<noteq> []" "endUser (hd (data st')) = ''Pharmaceuticals & Healthcare''"
    "distributionChannel (hd (data st')) = ''Detoxification Agent''"
    using generate_first by blast
  then show ?thesis unfolding generateComprehensiveData_def by simp
qed

text \<open>
  Claim C10. The generator returns normally, with exactly 264600 records, one for each
  combination of year, region, country, service type, end-user type, delivery channel and
  business model in loop order, and their identifiers are 100000, 100001, ..., 364599 in
  that order.
\<close>

theorem generate_all_records:
  "\<exists>d. generateComprehensiveData = Some d \<and> length d = 264600
     \<and> map recordId d = [100000 ..< 364600] \<and> map comboOf d = allCombinations"
  using generate_result by blast

text \<open>
  Claim C4. Every record of the generated sequence obeys the subtype rule: when the
  subtype list of its end user is not empty, its distribution channel is a member of that
  list; otherwise its distribution channel is its end user.
\<close>

theorem generated_subtype_rule:
  "\<exists>d. generateComprehensiveData = Some d
     \<and> (\<forall>r \<in> set d.
          (subtypesOf (endUser r) \<noteq> [] \<longrightarrow> distributionChannel r \<in> set (subtypesOf (endUser r)))
        \<and> (subtypesOf (endUser r) = [] \<longrightarrow> distributionChannel r = endUser r))"
proof -
  obtain d where d: "generateComprehensiveData = Some d" "list_all subtypeInvariant d"
    using generate_result by blast
  have "\<forall>r \<in> set d. subtypeInvariant r" using d(2) by (simp add: list_all_iff)
  then have "\<forall>r \<in> set d.
          (subtypesOf (endUser r) \<noteq> [] \<longrightarrow> distributionChannel r \<in> set (subtypesOf (endUser r)))
        \<and> (subtypesOf (endUser r) = [] \<longrightarrow> distributionChannel r = endUser r)"
    unfolding subtypeInvariant_def by (simp split: if_splits)
  then show ?thesis using d(1) by blast
qed

text \<open>
  The rule at the first generated record: its end user is Pharmaceuticals & Healthcare,
  which has subtypes, and its distribution channel is one of them.
\<close>

theorem generated_subtype_rule_witness:
  "subtypesOf ''Pharmaceuticals & Healthcare'' \<noteq> []
   \<and> hd (the generateComprehensiveData) \<in> set (the generateComprehensiveData)
   \<and> endUser (hd (the generateComprehensiveData)) = ''Pharmaceuticals & Healthcare''
   \<and> distributionChannel (hd (the generateComprehensiveData))
        \<in> set (subtypesOf ''Pharmaceuticals & Healthcare'')"
proof -
  obtain d where d: "generateComprehensiveData = Some d"
    and all: "\<forall>r \<in> set d.
          (subtypesOf (endUser r) \<noteq> [] \<longrightarrow> distributionChannel r \<in> set (subtypesOf (endUser r)))
        \<and> (subtypesOf (endUser r) = [] \<longrightarrow> distributionChannel r = endUser r)"
    using generated_subtype_rule by blast
  obtain d' where d': "generateComprehensiveData = Some d'" "d' \<noteq> []"
    "endUser (hd d') = ''Pharmaceuticals & Healthcare''"
    using generate_hd by blast
  have eq: "d' = d" using d d'(1) by (metis option.inject)
  have mem: "hd d \<in> set d" using d'(2) eq by simp
  have ne: "subtypesOf ''Pharmaceuticals & Healthcare'' \<noteq> []"
    by (simp add: subtypesOf_pharma)
  have eu: "endUser (hd d) = ''Pharmaceuticals & Healthcare''" using d'(3) eq by simp
  have t: "the generateComprehensiveData = d" by (simp only: d option.sel)
  have "distributionChannel (hd d) \<in> set (subtypesOf (endUser (hd d)))"
    using all mem ne eu by metis
  then have "distributionChannel (hd d) \<in> set (subtypesOf ''Pharmaceuticals & Healthcare'')"
    by (simp only: eu)
  then show ?thesis unfolding t using mem ne eu by blast
qed

text \<open>
  Claim C1. Two calls of \<^verbatim>\<open>getData\<close>, each on a cleared cache, return the same record
  sequence, whatever the module state was before: the sequence the generator computes
  from its initial state, whose seed is 42. This holds for two independent module states
  and for two calls in a row.
\<close>

theorem generate_deterministic:
  "fst (getData (clearDataCache m1)) = fst (getData (clearDataCache m2))
   \<and> fst (getData (clearDataCache (snd (getData (clearDataCache m1)))))
       = fst (getData (clearDataCache m1))
   \<and> generateComprehensiveData = Some (fst (getData (clearDataCache m1)))
   \<and> seed initialState = 42"
proof -
  obtain d where d: "generateComprehensiveData = Some d"
    using generate_result by blast
  have g: "\<And>m. fst (getData (clearDataCache m)) = d"
    by (simp add: getData_def getDataWith_def clearDataCache_def d)
  have "seed initialState = 42" by (simp add: initialState_def)
  then show ?thesis using g d by simp
qed

text \<open>
  Claim C7. When the generation throws and the cache is empty, \<^verbatim>\<open>getData\<close> returns the
  empty sequence instead of failing; every later call returns the same empty sequence
  whatever the generator would do then (it is not consulted); after \<^verbatim>\<open>clearDataCache\<close>
  the generator is consulted again.
\<close>

theorem getData_fails_closed:
  assumes "generated = None" and "dataCache m = None"
  shows "fst (getDataWith generated m) = []
     \<and> (\<forall>g. getDataWith g (snd (getDataWith generated m)) = ([], snd (getDataWith generated m)))
     \<and> (\<forall>d. fst (getDataWith (Some d) (clearDataCache (snd (getDataWith generated m)))) = d)"
  using assms by (simp add: getDataWith_def clearDataCache_def)

theorem getData_fails_closed_witness:
  "fst (getDataWith None \<lparr>dataCache = None\<rparr>) = []
   \<and> getDataWith generateComprehensiveData (snd (getDataWith None \<lparr>dataCache = None\<rparr>))
       = ([], snd (getDataWith None \<lparr>dataCache = None\<rparr>))"
proof -
  have h: "dataCache \<lparr>dataCache = None\<rparr> = None" by simp
  from getData_fails_closed [OF refl h] show ?thesis by blast
qed


section \<open>Properties of the bubble chart data\<close>

lemma years_gap: "endYear - startYear = 7"
  by (simp add: endYear_def startYear_def)

lemma cagrFromValues_eq:
  "cagrFromValues S E =
     (if S > 0 \<and> E > 0 then max 0 (((E / S) powr (1 / of_int (endYear - startYear)) - 1) * 100) else 0)"
  by (simp add: cagrFromValues_def Let_def)

lemma root7: "0 < a \<Longrightarrow> (a ^ 7) powr (1 / 7) = (a::real)"
proof -
  assume a: "0 < a"
  have "(a ^ 7) powr (1 / 7) = (a powr 7) powr (1 / 7)"
    using a powr_realpow [of a 7] by simp
  also have "\<dots> = a powr (7 * (1 / 7))" by (simp only: powr_powr)
  also have "\<dots> = a" using a by simp
  finally show ?thesis .
qed

lemma two_root7_lower: "(1.104::real) < 2 powr (1 / 7)"
proof -
  have "(1.104::real) ^ 7 < 2" by (simp add: power_numeral_reduce field_simps)
  then have "((1.104::real) ^ 7) powr (1 / 7) < 2 powr (1 / 7)"
    by (intro powr_less_mono2) simp_all
  then show ?thesis using root7 [of "1.104"] by simp
qed

lemma two_root7_upper: "2 powr (1 / 7) < (1.1042::real)"
proof -
  have "2 < (1.1042::real) ^ 7" by (simp add: power_numeral_reduce field_simps)
  then have "2 powr (1 / 7) < ((1.1042::real) ^ 7) powr (1 / 7)"
    by (intro powr_less_mono2) simp_all
  then show ?thesis using root7 [of "1.1042"] by simp
qed

lemma cagr_examples:
  "cagrFromValues 0 100 = 0" "cagrFromValues 100 50 = 0"
  "cagrFromValues 100 200 = (2 powr (1 / 7) - 1) * 100"
proof -
  show "cagrFromValues 0 100 = 0" by (simp add: cagrFromValues_eq)
  have "(1 / 2 :: real) powr (1 / 7) \<le> 1" by (rule powr_le1) simp_all
  then show "cagrFromValues 100 50 = 0" by (simp add: cagrFromValues_eq years_gap)
  have "1 < (2::real) powr (1 / 7)" using two_root7_lower by simp
  then show "cagrFromValues 100 200 = (2 powr (1 / 7) - 1) * 100"
    by (simp add: cagrFromValues_eq years_gap)
qed

text \<open>
  Claim C5. The growth rate the bubble chart computes from the start value \<open>S\<close> and the
  end value \<open>E\<close> is \<open>((E / S) powr (1 / N) - 1) * 100\<close> clamped at 0 when both are
  positive, and 0 otherwise, the gap \<open>N\<close> being the 7 years from 2025 to 2032. From 0 to
  100 it is 0, from 100 to 50 it is 0, and from 100 to 200 it is
  \<open>(2 powr (1 / 7) - 1) * 100\<close>, between 10.40 and 10.42.
\<close>

theorem bubble_cagr:
  "cagrFromValues S E =
     (if S > 0 \<and> E > 0 then max 0 (((E / S) powr (1 / of_int (endYear - startYear)) - 1) * 100) else 0)
   \<and> endYear - startYear = 7
   \<and> cagrFromValues 0 100 = 0
   \<and> cagrFromValues 100 50 = 0
   \<and> cagrFromValues 100 200 = (2 powr (1 / 7) - 1) * 100
   \<and> 10.40 < cagrFromValues 100 200 \<and> cagrFromValues 100 200 < 10.42"
proof -
  have "10.40 < (2 powr (1 / 7) - 1) * (100::real)" using two_root7_lower by simp
  moreover have "(2 powr (1 / 7) - 1) * (100::real) < 10.42" using two_root7_upper by simp
  ultimately show ?thesis
    using cagrFromValues_eq [of S E] years_gap cagr_examples by presburger
qed

lemma keys_addToCategory:
  "map fst (addToCategory seg m d) =
     (case getCategoryValue d seg of
        None \<Rightarrow> map fst m
      | Some c \<Rightarrow> if c = [] \<or> c \<in> set (map fst m) then map fst m else map fst m @ [c])"
  by (simp add: addToCategory_def Let_def update_keys split: option.splits)

lemma keys_foldl:
  "distinct (map fst m) \<Longrightarrow>
   distinct (map fst (foldl (addToCategory seg) m ds))
   \<and> set (map fst (foldl (addToCategory seg) m ds)) = set (map fst m) \<union> categoriesOf seg ds"
proof (induction ds arbitrary: m)
  case Nil
  then show ?case by (simp add: categoriesOf_def List.map_filter_simps)
next
  case (Cons d ds)
  have d1: "distinct (map fst (addToCategory seg m d))"
    using Cons.prems by (simp add: keys_addToCategory split: option.splits)
  have s1: "set (map fst (addToCategory seg m d)) \<union> categoriesOf seg ds
      = set (map fst m) \<union> categoriesOf seg (d # ds)"
    by (auto simp: keys_addToCategory categoriesOf_def List.map_filter_simps split: option.splits)
  show ?case using Cons.IH [OF d1] s1 by simp
qed

lemma keys_categoryDataMapOf:
  "distinct (map fst (categoryDataMapOf seg ds))"
  "set (map fst (categoryDataMapOf seg ds)) = categoriesOf seg ds"
  using keys_foldl [of "[]" seg ds] by (simp_all add: categoryDataMapOf_def)

lemma sortedItems_eq:
  "sortedItemsOf (categoryDataMapOf seg ds) = sorted_list_of_set (categoriesOf seg ds)"
proof -
  have "sorted_list_of_set (set (map fst (categoryDataMapOf seg ds)))
      = sort (remdups (map fst (categoryDataMapOf seg ds)))"
    by (rule sorted_list_of_set_sort_remdups)
  then show ?thesis
    using keys_categoryDataMapOf [of seg ds] by (simp add: sortedItemsOf_def distinct_remdups_id)
qed

lemma allSome_map:
  "(\<And>x. x \<in> set xs \<Longrightarrow> f x = Some (g x)) \<Longrightarrow> allSome (map f xs) = Some (map g xs)"
  by (induction xs) simp_all

lemma rawBubble_Some:
  assumes "item \<in> set (map fst m)"
  shows "\<exists>b. rawBubble m tot n index item = Some b \<and> rbRegion b = item
     \<and> (rbCagr b, rbMarketShare b) = syntheticPosition n index"
proof -
  obtain it where "map_of m item = Some it"
    using assms by (metis map_of_eq_None_iff not_Some_eq set_map)
  then show ?thesis by (simp add: rawBubble_def Let_def syntheticPosition_def)
qed

lemma rawBubbles_Some:
  assumes "set items \<subseteq> set (map fst m)"
  shows "\<exists>bs. allSome (map (\<lambda>(index, item). rawBubble m tot n index item) (enumerate k items)) = Some bs
     \<and> map rbRegion bs = items
     \<and> map (\<lambda>b. (rbCagr b, rbMarketShare b)) bs = map (syntheticPosition n) [k ..< k + length items]"
  using assms
proof (induction items arbitrary: k)
  case Nil
  show ?case by simp
next
  case (Cons item items)
  have "item \<in> set (map fst m)" using Cons.prems by simp
  then obtain b where b: "rawBubble m tot n k item = Some b" "rbRegion b = item"
    "(rbCagr b, rbMarketShare b) = syntheticPosition n k"
    using rawBubble_Some by blast
  have "set items \<subseteq> set (map fst m)" using Cons.prems by simp
  from Cons.IH [OF this, of "Suc k"] obtain bs where bs:
    "allSome (map (\<lambda>(index, item). rawBubble m tot n index item) (enumerate (Suc k) items)) = Some bs"
    "map rbRegion bs = items"
    "map (\<lambda>b. (rbCagr b, rbMarketShare b)) bs = map (syntheticPosition n) [Suc k ..< Suc k + length items]"
    by blast
  have "k < k + length (item # items)" by simp
  then have "[k ..< k + length (item # items)] = k # [Suc k ..< k + length (item # items)]"
    by (rule upt_conv_Cons)
  moreover have "k + length (item # items) = Suc k + length items" by simp
  ultimately have u: "[k ..< k + length (item # items)] = k # [Suc k ..< Suc k + length items]"
    by (simp only:)
  have 1: "allSome (map (\<lambda>(index, item). rawBubble m tot n index item) (enumerate k (item # items)))
      = Some (b # bs)"
    using b(1) bs(1) by simp
  have 2: "map rbRegion (b # bs) = item # items" using b(2) bs(2) by simp
  have 3: "map (\<lambda>b. (rbCagr b, rbMarketShare b)) (b # bs) = map (syntheticPosition n) [k ..< k + length (item # items)]"
    unfolding u using b(3) bs(3) by simp
  show ?case by (rule exI [of _ "b # bs"]) (simp only: 1 2 3 simp_thms)
qed

lemma rawBubbleData_Some:
  "\<exists>bs. rawBubbleData seg ds = Some bs
     \<and> map rbRegion bs = sorted_list_of_set (categoriesOf seg ds)
     \<and> map (\<lambda>b. (rbCagr b, rbMarketShare b)) bs
         = map (syntheticPosition (length bs)) [0 ..< length bs]"
proof -
  define m where "m = categoryDataMapOf seg ds"
  define items where "items = sortedItemsOf m"
  have "set items \<subseteq> set (map fst m)" by (simp add: items_def sortedItemsOf_def)
  from rawBubbles_Some [OF this, of "allItemsTotalOf ds" "length items" 0]
  obtain bs where bs:
    "allSome (map (\<lambda>(index, item). rawBubble m (allItemsTotalOf ds) (length items) index item) (enumerate 0 items)) = Some bs"
    "map rbRegion bs = items"
    "map (\<lambda>b. (rbCagr b, rbMarketShare b)) bs = map (syntheticPosition (length items)) [0 ..< 0 + length items]"
    by blast
  have len: "length bs = length items" using bs(2) by (metis length_map)
  have r: "rawBubbleData seg ds = Some bs"
    unfolding rawBubbleData_def Let_def m_def [symmetric] items_def [symmetric] by (rule bs(1))
  have reg: "map rbRegion bs = sorted_list_of_set (categoriesOf seg ds)"
    using bs(2) by (simp add: items_def m_def sortedItems_eq)
  have pos: "map (\<lambda>b. (rbCagr b, rbMarketShare b)) bs = map (syntheticPosition (length bs)) [0 ..< length bs]"
    using bs(3) len by simp
  show ?thesis by (rule exI [of _ bs]) (simp only: r reg pos simp_thms)
qed







section \<open>Properties of the bubble relaxation\<close>

lemma pushFrom_flag:
  "snd (snd (pushFrom b other (c, s, h))) = (h \<or> overlapping b other)"
  by (cases "overlapping b other")
     (simp_all only: pushFrom_def overlapping_def distanceBetween_def Let_def prod.case
        if_True if_False snd_conv simp_thms)

lemma pushFrom_keep:
  "\<not> overlapping b other \<Longrightarrow> pushFrom b other (c, s, h) = (c, s, h)"
  by (simp only: pushFrom_def overlapping_def distanceBetween_def Let_def prod.case
        if_False simp_thms)

lemma pushFrom_indep:
  "fst (pushFrom b other (c, s, h)) = fst (pushFrom b other (c, s, h'))
   \<and> fst (snd (pushFrom b other (c, s, h))) = fst (snd (pushFrom b other (c, s, h')))"
  by (simp add: pushFrom_def Let_def)

lemma inner_flag:
  "snd (snd (foldl (\<lambda>acc j. if i = j then acc else pushFrom b (xs ! j) acc) (c, s, h) js))
     = (h \<or> (\<exists>j \<in> set js. j \<noteq> i \<and> overlapping b (xs ! j)))"
proof (induction js arbitrary: c s h)
  case Nil
  show ?case by simp
next
  case (Cons j js)
  show ?case
  proof (cases "i = j")
    case True
    then show ?thesis using Cons.IH [of c s h] by auto
  next
    case False
    obtain c' s' h' where p: "pushFrom b (xs ! j) (c, s, h) = (c', s', h')"
      by (cases "pushFrom b (xs ! j) (c, s, h)") auto
    have h': "h' = (h \<or> overlapping b (xs ! j))"
      using pushFrom_flag [of b "xs ! j" c s h] p by simp
    show ?thesis using False p h' Cons.IH [of c' s' h'] by auto
  qed
qed

lemma inner_indep:
  "fst (foldl (\<lambda>acc j. if i = j then acc else pushFrom b (xs ! j) acc) (c, s, h) js)
     = fst (foldl (\<lambda>acc j. if i = j then acc else pushFrom b (xs ! j) acc) (c, s, h') js)
   \<and> fst (snd (foldl (\<lambda>acc j. if i = j then acc else pushFrom b (xs ! j) acc) (c, s, h) js))
     = fst (snd (foldl (\<lambda>acc j. if i = j then acc else pushFrom b (xs ! j) acc) (c, s, h') js))"
proof (induction js arbitrary: c s h h')
  case Nil
  show ?case by simp
next
  case (Cons j js)
  show ?case
  proof (cases "i = j")
    case True
    then show ?thesis using Cons.IH [of c s h h'] by simp
  next
    case False
    obtain c1 s1 h1 where p1: "pushFrom b (xs ! j) (c, s, h) = (c1, s1, h1)"
      by (cases "pushFrom b (xs ! j) (c, s, h)") auto
    obtain c2 s2 h2 where p2: "pushFrom b (xs ! j) (c, s, h') = (c2, s2, h2)"
      by (cases "pushFrom b (xs ! j) (c, s, h')") auto
    have "c1 = c2 \<and> s1 = s2" using pushFrom_indep [of b "xs ! j" c s h h'] p1 p2 by simp
    then show ?thesis using False p1 p2 Cons.IH [of c1 s1 h1 h2] by simp
  qed
qed

lemma inner_keep:
  "\<forall>j \<in> set js. j \<noteq> i \<longrightarrow> \<not> overlapping b (xs ! j) \<Longrightarrow>
   foldl (\<lambda>acc j. if i = j then acc else pushFrom b (xs ! j) acc) (c, s, h) js = (c, s, h)"
proof (induction js)
  case Nil
  show ?case by simp
next
  case (Cons j js)
  then show ?case by (cases "i = j") (simp_all add: pushFrom_keep)
qed

lemma adjustBubble_flag:
  "snd (adjustBubble xs i b h) = (h \<or> (\<exists>j < length xs. j \<noteq> i \<and> overlapping b (xs ! j)))"
proof -
  let ?R = "foldl (\<lambda>acc j. if i = j then acc else pushFrom b (xs ! j) acc)
             (cagrIndex b, marketShareIndex b, h) [0 ..< length xs]"
  have "snd (adjustBubble xs i b h) = snd (snd ?R)"
    by (simp add: adjustBubble_def split_def)
  then show ?thesis
    using inner_flag [of i b xs "cagrIndex b" "marketShareIndex b" h "[0 ..< length xs]"] by auto
qed

lemma adjustBubble_indep: "fst (adjustBubble xs i b h) = fst (adjustBubble xs i b False)"
  using inner_indep [of i b xs "cagrIndex b" "marketShareIndex b" h "[0 ..< length xs]" False]
  by (simp add: adjustBubble_def split_def)

lemma adjustBubble_inBox: "inBox (fst (adjustBubble xs i b h))"
  by (simp add: adjustBubble_def split_def inBox_def)

lemma adjustBubble_keep:
  assumes "\<not> (\<exists>j < length xs. j \<noteq> i \<and> overlapping b (xs ! j))" "inBox b"
  shows "fst (adjustBubble xs i b h) = b"
proof -
  have "foldl (\<lambda>acc j. if i = j then acc else pushFrom b (xs ! j) acc)
             (cagrIndex b, marketShareIndex b, h) [0 ..< length xs]
        = (cagrIndex b, marketShareIndex b, h)"
    by (rule inner_keep) (use assms(1) in auto)
  then show ?thesis using assms(2) by (simp add: adjustBubble_def inBox_def)
qed

lemma adjustBubble_eq:
  "adjustBubble xs i b h
     = (fst (adjustBubble xs i b False), h \<or> (\<exists>j < length xs. j \<noteq> i \<and> overlapping b (xs ! j)))"
proof (rule prod_eqI)
  show "fst (adjustBubble xs i b h)
      = fst (fst (adjustBubble xs i b False), h \<or> (\<exists>j < length xs. j \<noteq> i \<and> overlapping b (xs ! j)))"
    using adjustBubble_indep [of xs i b h] by (simp only: fst_conv)
  show "snd (adjustBubble xs i b h)
      = snd (fst (adjustBubble xs i b False), h \<or> (\<exists>j < length xs. j \<noteq> i \<and> overlapping b (xs ! j)))"
    using adjustBubble_flag [of xs i b h] by (simp only: snd_conv)
qed

lemma relaxStep_fold:
  "foldl (\<lambda>(out, hasOverlap) (i, bubble).
              (case adjustBubble xs i bubble hasOverlap of
                 (bubble', hasOverlap') \<Rightarrow> (out @ [bubble'], hasOverlap')))
       (out0, h0) ps
   = (out0 @ map (\<lambda>(i, b). fst (adjustBubble xs i b False)) ps,
      h0 \<or> (\<exists>(i, b) \<in> set ps. \<exists>j < length xs. j \<noteq> i \<and> overlapping b (xs ! j)))"
proof (induction ps arbitrary: out0 h0)
  case Nil
  show ?case by simp
next
  case (Cons p ps)
  obtain i b where p: "p = (i, b)" by (cases p) auto
  let ?ov = "\<exists>j < length xs. j \<noteq> i \<and> overlapping b (xs ! j)"
  let ?step = "\<lambda>(out, hasOverlap) (i, bubble).
              (case adjustBubble xs i bubble hasOverlap of
                 (bubble', hasOverlap') \<Rightarrow> (out @ [bubble'], hasOverlap'))"
  have one: "?step (out0, h0) (i, b) = (out0 @ [fst (adjustBubble xs i b False)], h0 \<or> ?ov)"
    by (simp only: prod.case adjustBubble_eq [of xs i b h0])
  have "foldl ?step (out0, h0) (p # ps)
      = foldl ?step (out0 @ [fst (adjustBubble xs i b False)], h0 \<or> ?ov) ps"
    unfolding p by (simp only: foldl_Cons one)
  also have "\<dots> = ((out0 @ [fst (adjustBubble xs i b False)]) @ map (\<lambda>(i, b). fst (adjustBubble xs i b False)) ps,
      (h0 \<or> ?ov) \<or> (\<exists>(i, b) \<in> set ps. \<exists>j < length xs. j \<noteq> i \<and> overlapping b (xs ! j)))"
    by (rule Cons.IH)
  also have "\<dots> = (out0 @ map (\<lambda>(i, b). fst (adjustBubble xs i b False)) (p # ps),
      h0 \<or> (\<exists>(i, b) \<in> set (p # ps). \<exists>j < length xs. j \<noteq> i \<and> overlapping b (xs ! j)))"
    unfolding p by auto
  finally show ?case .
qed

lemma relaxStep_fst:
  "fst (relaxStep xs) = map (\<lambda>(i, b). fst (adjustBubble xs i b False)) (enumerate 0 xs)"
  by (simp add: relaxStep_def relaxStep_fold)

lemma ex_enumerate:
  "(\<exists>(i, b) \<in> set (enumerate 0 xs). Q i b) = (\<exists>i < length xs. Q i (xs ! i))"
proof
  assume "\<exists>(i, b) \<in> set (enumerate 0 xs). Q i b"
  then obtain i b where "(i, b) \<in> set (enumerate 0 xs)" "Q i b" by auto
  then have "i < length xs" "xs ! i = b" by (simp_all add: in_set_enumerate_eq)
  then show "\<exists>i < length xs. Q i (xs ! i)" using \<open>Q i b\<close> by auto
next
  assume "\<exists>i < length xs. Q i (xs ! i)"
  then obtain i where i: "i < length xs" "Q i (xs ! i)" by auto
  then have "(i, xs ! i) \<in> set (enumerate 0 xs)" by (simp add: in_set_enumerate_eq)
  then show "\<exists>(i, b) \<in> set (enumerate 0 xs). Q i b" using i(2) by auto
qed

lemma relaxStep_snd:
  "snd (relaxStep xs) = (\<exists>i < length xs. \<exists>j < length xs. j \<noteq> i \<and> overlapping (xs ! i) (xs ! j))"
proof -
  have "snd (relaxStep xs)
      = (\<exists>(i, b) \<in> set (enumerate 0 xs). \<exists>j < length xs. j \<noteq> i \<and> overlapping b (xs ! j))"
    by (simp add: relaxStep_def relaxStep_fold)
  then show ?thesis by (simp only: ex_enumerate)
qed

lemma relaxStep_length: "length (fst (relaxStep xs)) = length xs"
  by (simp add: relaxStep_fst)

lemma relaxStep_nth:
  "i < length xs \<Longrightarrow> fst (relaxStep xs) ! i = fst (adjustBubble xs i (xs ! i) False)"
  by (simp add: relaxStep_fst nth_enumerate_eq)

lemma relaxStep_inBox: "\<forall>b \<in> set (fst (relaxStep xs)). inBox b"
proof
  fix b assume "b \<in> set (fst (relaxStep xs))"
  then obtain i where "i < length xs" "b = fst (relaxStep xs) ! i"
    by (metis in_set_conv_nth relaxStep_length)
  then show "inBox b" by (simp add: relaxStep_nth adjustBubble_inBox)
qed

lemma relaxStep_keep:
  assumes "\<not> snd (relaxStep xs)" "\<forall>b \<in> set xs. inBox b"
  shows "fst (relaxStep xs) = xs"
proof (rule nth_equalityI)
  show "length (fst (relaxStep xs)) = length xs" by (rule relaxStep_length)
next
  fix i assume "i < length (fst (relaxStep xs))"
  then have i: "i < length xs" by (simp add: relaxStep_length)
  have no: "\<not> (\<exists>j < length xs. j \<noteq> i \<and> overlapping (xs ! i) (xs ! j))"
    using assms(1) i unfolding relaxStep_snd by blast
  have "inBox (xs ! i)" using assms(2) i by simp
  from adjustBubble_keep [OF no this] show "fst (relaxStep xs) ! i = xs ! i"
    by (simp add: relaxStep_nth i)
qed

lemma relaxLoop_break:
  "iteration < maxIterations \<Longrightarrow> \<not> snd (relaxStep xs) \<Longrightarrow>
   relaxLoop iteration xs = (fst (relaxStep xs), iteration)"
  by (subst relaxLoop.simps) (simp add: split_def)

lemma relaxLoop_continue:
  "iteration < maxIterations \<Longrightarrow> snd (relaxStep xs) \<Longrightarrow>
   relaxLoop iteration xs = relaxLoop (iteration + 1) (fst (relaxStep xs))"
  by (subst relaxLoop.simps) (simp add: split_def)

lemma relaxLoop_cap:
  "\<not> iteration < maxIterations \<Longrightarrow> relaxLoop iteration xs = (xs, iteration)"
  by (subst relaxLoop.simps) simp

lemma relaxLoop_separated:
  "(\<forall>b \<in> set xs. inBox b) \<Longrightarrow> snd (relaxLoop iteration xs) < maxIterations \<Longrightarrow>
   (\<forall>i < length (fst (relaxLoop iteration xs)). \<forall>j < length (fst (relaxLoop iteration xs)).
      j \<noteq> i \<longrightarrow> \<not> overlapping (fst (relaxLoop iteration xs) ! i) (fst (relaxLoop iteration xs) ! j))"
proof (induction iteration xs rule: relaxLoop.induct)
  case (1 iteration adjustedData)
  show ?case
  proof (cases "iteration < maxIterations")
    case False
    then show ?thesis using "1.prems"(2) by (simp add: relaxLoop_cap)
  next
    case True
    show ?thesis
    proof (cases "snd (relaxStep adjustedData)")
      case False
      have k: "fst (relaxStep adjustedData) = adjustedData"
        using relaxStep_keep [OF False "1.prems"(1)] .
      have r: "relaxLoop iteration adjustedData = (adjustedData, iteration)"
        using relaxLoop_break [OF True False] k by simp
      show ?thesis using False unfolding r relaxStep_snd fst_conv by blast
    next
      case h: True
      have e: "(fst (relaxStep adjustedData), snd (relaxStep adjustedData)) = relaxStep adjustedData"
        by simp
      have r: "relaxLoop iteration adjustedData = relaxLoop (iteration + 1) (fst (relaxStep adjustedData))"
        using relaxLoop_continue [OF True h] .
      have ih: "(\<forall>b \<in> set (fst (relaxStep adjustedData)). inBox b) \<Longrightarrow>
          snd (relaxLoop (iteration + 1) (fst (relaxStep adjustedData))) < maxIterations \<Longrightarrow>
          (\<forall>i < length (fst (relaxLoop (iteration + 1) (fst (relaxStep adjustedData)))).
           \<forall>j < length (fst (relaxLoop (iteration + 1) (fst (relaxStep adjustedData)))).
             j \<noteq> i \<longrightarrow> \<not> overlapping (fst (relaxLoop (iteration + 1) (fst (relaxStep adjustedData))) ! i)
                                        (fst (relaxLoop (iteration + 1) (fst (relaxStep adjustedData))) ! j))"
        using "1.IH" [OF True e] h by blast
      show ?thesis
        unfolding r using ih [OF relaxStep_inBox] "1.prems"(2) unfolding r by blast
    qed
  qed
qed

lemma relaxLoop_bounds:
  "snd (relaxLoop iteration xs) \<le> max iteration maxIterations
   \<and> length (fst (relaxLoop iteration xs)) = length xs"
proof (induction iteration xs rule: relaxLoop.induct)
  case (1 iteration adjustedData)
  show ?case
  proof (cases "iteration < maxIterations")
    case False
    then show ?thesis by (simp add: relaxLoop_cap)
  next
    case True
    show ?thesis
    proof (cases "snd (relaxStep adjustedData)")
      case False
      show ?thesis using relaxLoop_break [OF True False] True by (simp add: relaxStep_length)
    next
      case h: True
      have e: "(fst (relaxStep adjustedData), snd (relaxStep adjustedData)) = relaxStep adjustedData"
        by simp
      have "snd (relaxLoop (iteration + 1) (fst (relaxStep adjustedData))) \<le> max (iteration + 1) maxIterations
        \<and> length (fst (relaxLoop (iteration + 1) (fst (relaxStep adjustedData)))) = length (fst (relaxStep adjustedData))"
        using "1.IH" [OF True e] h by blast
      then show ?thesis
        using True by (simp add: relaxLoop_continue [OF True h] relaxStep_length)
    qed
  qed
qed

lemma distance_same_share:
  "marketShareIndex a = marketShareIndex b \<Longrightarrow> distanceBetween a b = \<bar>cagrIndex a - cagrIndex b\<bar>"
  by (simp add: distanceBetween_def Let_def)

lemma ex_less_two: "(\<exists>i < Suc (Suc 0). Q i) = (Q 0 \<or> Q (Suc 0))"
  by (auto simp: less_Suc_eq)

lemma relaxStep_two:
  "snd (relaxStep [a, b]) = (overlapping a b \<or> overlapping b a)"
proof -
  have "snd (relaxStep [a, b])
      = (\<exists>i < Suc (Suc 0). \<exists>j < Suc (Suc 0). j \<noteq> i \<and> overlapping ([a, b] ! i) ([a, b] ! j))"
    by (simp add: relaxStep_snd)
  also have "\<dots> = (overlapping a b \<or> overlapping b a)"
    by (simp only: ex_less_two) simp
  finally show ?thesis .
qed

lemma separated_distance:
  "distanceBetween (separatedBubbles ! 0) (separatedBubbles ! 1) = 10"
  "distanceBetween (separatedBubbles ! 1) (separatedBubbles ! 0) = 10"
  by (simp_all add: separatedBubbles_def bubbleAt_def distance_same_share)

lemma close_distance:
  "distanceBetween (closeBubbles ! 0) (closeBubbles ! 1) = 1 / 2000"
  "distanceBetween (closeBubbles ! 1) (closeBubbles ! 0) = 1 / 2000"
  by (simp_all add: closeBubbles_def bubbleAt_def distance_same_share)

lemma separated_run: "relaxLoop 0 separatedBubbles = (separatedBubbles, 0)"
proof -
  have no: "\<not> snd (relaxStep separatedBubbles)"
    using separated_distance
    by (simp add: separatedBubbles_def relaxStep_two overlapping_def minDistance_def)
  have box: "\<forall>b \<in> set separatedBubbles. inBox b"
    by (simp add: separatedBubbles_def bubbleAt_def inBox_def)
  have "0 < maxIterations" by (simp add: maxIterations_def)
  from relaxLoop_break [OF this no] relaxStep_keep [OF no box] show ?thesis by simp
qed

lemma close_run: "relaxLoop 0 closeBubbles = (closeBubbles, 0)"
proof -
  have no: "\<not> snd (relaxStep closeBubbles)"
    using close_distance
    by (simp add: closeBubbles_def relaxStep_two overlapping_def minDistance_def)
  have box: "\<forall>b \<in> set closeBubbles. inBox b"
    by (simp add: closeBubbles_def bubbleAt_def inBox_def)
  have "0 < maxIterations" by (simp add: maxIterations_def)
  from relaxLoop_break [OF this no] relaxStep_keep [OF no box] show ?thesis by simp
qed

lemma foldl_min_le: "foldl min (a::real) xs \<le> a \<and> (\<forall>x \<in> set xs. foldl min a xs \<le> x)"
proof (induction xs arbitrary: a)
  case Nil
  show ?case by simp
next
  case (Cons y ys)
  have "foldl min (min a y) ys \<le> min a y \<and> (\<forall>x \<in> set ys. foldl min (min a y) ys \<le> x)"
    by (rule Cons.IH)
  then show ?case by auto
qed

lemma foldl_max_ge: "(a::real) \<le> foldl max a xs \<and> (\<forall>x \<in> set xs. x \<le> foldl max a xs)"
proof (induction xs arbitrary: a)
  case Nil
  show ?case by simp
next
  case (Cons y ys)
  have "max a y \<le> foldl max (max a y) ys \<and> (\<forall>x \<in> set ys. x \<le> foldl max (max a y) ys)"
    by (rule Cons.IH)
  then show ?case by auto
qed

lemma foldl_min_mem: "foldl min (a::real) xs \<in> set (a # xs)"
proof (induction xs arbitrary: a)
  case Nil
  show ?case by simp
next
  case (Cons y ys)
  have ih: "foldl min (min a y) ys \<in> set (min a y # ys)" by (rule Cons.IH)
  show ?case
  proof (cases "a \<le> y")
    case True
    then have "min a y = a" by simp
    then show ?thesis using ih by auto
  next
    case False
    then have "min a y = y" by simp
    then show ?thesis using ih by auto
  qed
qed

lemma mathMin_le: "x \<in> set xs \<Longrightarrow> mathMin xs \<le> x"
  using foldl_min_le [of "hd xs" "tl xs"] by (cases xs) (auto simp: mathMin_def)

lemma mathMax_ge: "x \<in> set xs \<Longrightarrow> x \<le> mathMax xs"
  using foldl_max_ge [of "hd xs" "tl xs"] by (cases xs) (auto simp: mathMax_def)

lemma mathMin_mem: "xs \<noteq> [] \<Longrightarrow> mathMin xs \<in> set xs"
  using foldl_min_mem [of "hd xs" "tl xs"] by (cases xs) (auto simp: mathMin_def)

lemma scaled_range:
  fixes v lo hi :: real
  assumes "lo \<le> v" "v \<le> hi"
  shows "- 2 \<le> (if hi - lo > 0 then (v - lo) / (hi - lo) * 10 else 5.0)
       \<and> (if hi - lo > 0 then (v - lo) / (hi - lo) * 10 else 5.0) \<le> 12"
proof (cases "hi - lo > 0")
  case False
  then show ?thesis by simp
next
  case True
  define t where "t = (v - lo) / (hi - lo)"
  have "0 \<le> t" unfolding t_def using assms True by simp
  moreover have "t \<le> 1" unfolding t_def using assms True by simp
  ultimately have "- 2 \<le> t * 10 \<and> t * 10 \<le> 12" by simp
  then show ?thesis using True unfolding t_def by (simp only: if_True)
qed

lemma normalized_inBox:
  assumes "\<forall>b \<in> set raw. 0 \<le> rbCagr b"
  shows "\<forall>b \<in> set (normalizedDataOf raw). inBox b"
proof (cases "raw = []")
  case True
  then show ?thesis by (simp add: normalizedDataOf_def)
next
  case False
  define cs where "cs = map rbCagr raw"
  define ss where "ss = map rbMarketShare raw"
  have cs_ne: "cs \<noteq> []" using False by (simp add: cs_def)
  have "mathMin cs \<in> set cs" using mathMin_mem [OF cs_ne] .
  then have "0 \<le> mathMin cs" using assms by (auto simp: cs_def)
  then have lo: "max 0 (mathMin cs) = mathMin cs" by simp
  define N :: "RawBubble \<Rightarrow> Bubble" where "N = (\<lambda>item.
                  \<lparr>rbRegion = rbRegion item, rbCagr = rbCagr item,
                   rbMarketShare = rbMarketShare item,
                   rbIncrementalOpportunity = rbIncrementalOpportunity item,
                   cagrIndex = (if mathMax cs - mathMin cs > 0
                                then (rbCagr item - mathMin cs) / (mathMax cs - mathMin cs) * 10
                                else 5.0),
                   marketShareIndex =
                     (if mathMax ss - mathMin ss > 0
                      then (rbMarketShare item - mathMin ss) / (mathMax ss - mathMin ss) * 10
                      else 5.0)\<rparr>)"
  have nd: "normalizedDataOf raw = map N (sort_key (\<lambda>b. - rbIncrementalOpportunity b) raw)"
    by (simp only: normalizedDataOf_def Let_def False if_False cs_def [symmetric]
          ss_def [symmetric] lo N_def)
  show ?thesis
  proof
    fix b assume "b \<in> set (normalizedDataOf raw)"
    then obtain item where item: "item \<in> set raw" and b: "b = N item"
      unfolding nd by auto
    have c: "rbCagr item \<in> set cs" "rbMarketShare item \<in> set ss"
      using item by (simp_all add: cs_def ss_def)
    have 1: "- 2 \<le> cagrIndex (N item) \<and> cagrIndex (N item) \<le> 12"
      using scaled_range [OF mathMin_le [OF c(1)] mathMax_ge [OF c(1)]]
      by (simp only: N_def Bubble.select_convs)
    have 2: "- 2 \<le> marketShareIndex (N item) \<and> marketShareIndex (N item) \<le> 12"
      using scaled_range [OF mathMin_le [OF c(2)] mathMax_ge [OF c(2)]]
      by (simp only: N_def Bubble.select_convs)
    show "inBox b" unfolding inBox_def b using 1 2 by blast
  qed
qed

lemma pipeline_inBox:
  assumes "rawBubbleData seg ds = Some raw"
  shows "\<forall>b \<in> set (normalizedDataOf raw). inBox b"
proof (rule normalized_inBox, rule ballI)
  fix b assume "b \<in> set raw"
  then obtain i where i: "i < length raw" "b = raw ! i" by (metis in_set_conv_nth)
  obtain bs where bs: "rawBubbleData seg ds = Some bs"
    "map (\<lambda>b. (rbCagr b, rbMarketShare b)) bs = map (syntheticPosition (length bs)) [0 ..< length bs]"
    using rawBubbleData_Some by blast
  have eq: "bs = raw" using assms bs(1) by (metis option.inject)
  have "map (\<lambda>b. (rbCagr b, rbMarketShare b)) raw ! i
      = map (syntheticPosition (length raw)) [0 ..< length raw] ! i"
    using bs(2) unfolding eq by (simp only:)
  then have "rbCagr b = real i / max 1 (real (length raw) - 1) * 25"
    using i by (simp add: syntheticPosition_def)
  then show "0 \<le> rbCagr b" by simp
qed

text \<open>
  Claim C8, as the code has it. For input bubbles inside the clamp box (both indices
  between -2 and 12, as the normalised data always are): when the loop ends, either the
  iteration counter has reached the cap of 100, or every two different bubbles of the
  output are at least \<open>minDistance\<close> apart or at most 0.001 apart; a pair closer than
  0.001 is not treated as an overlap by the loop. The loop ends at the first iteration
  that finds no overlap, returning that iteration's array.
\<close>

theorem relaxation_separates:
  "((\<forall>b \<in> set bs. inBox b) \<longrightarrow>
       snd (relaxLoop 0 bs) = maxIterations
     \<or> (\<forall>i < length (fst (relaxLoop 0 bs)). \<forall>j < length (fst (relaxLoop 0 bs)). i \<noteq> j \<longrightarrow>
          minDistance \<le> distanceBetween (fst (relaxLoop 0 bs) ! i) (fst (relaxLoop 0 bs) ! j)
        \<or> distanceBetween (fst (relaxLoop 0 bs) ! i) (fst (relaxLoop 0 bs) ! j) \<le> 0.001))
   \<and> (rawBubbleData seg ds = Some raw \<longrightarrow> (\<forall>b \<in> set (normalizedDataOf raw). inBox b))
   \<and> (iteration < maxIterations \<and> \<not> snd (relaxStep bs) \<longrightarrow>
        relaxLoop iteration bs = (fst (relaxStep bs), iteration))
   \<and> snd (relaxStep bs)
        = (\<exists>i < length bs. \<exists>j < length bs. j \<noteq> i \<and> overlapping (bs ! i) (bs ! j))"
proof -
  let ?out = "fst (relaxLoop 0 bs)"
  have a: "snd (relaxLoop 0 bs) = maxIterations
     \<or> (\<forall>i < length ?out. \<forall>j < length ?out. i \<noteq> j \<longrightarrow>
          minDistance \<le> distanceBetween (?out ! i) (?out ! j)
        \<or> distanceBetween (?out ! i) (?out ! j) \<le> 0.001)"
    if box: "\<forall>b \<in> set bs. inBox b"
  proof (cases "snd (relaxLoop 0 bs) = maxIterations")
    case True
    then show ?thesis by simp
  next
    case False
    have "snd (relaxLoop 0 bs) \<le> max 0 maxIterations" using relaxLoop_bounds [of 0 bs] by simp
    then have lt: "snd (relaxLoop 0 bs) < maxIterations" using False by simp
    have sep: "\<forall>i < length ?out. \<forall>j < length ?out. j \<noteq> i \<longrightarrow> \<not> overlapping (?out ! i) (?out ! j)"
      using relaxLoop_separated [OF box lt] .
    have "\<forall>i < length ?out. \<forall>j < length ?out. i \<noteq> j \<longrightarrow>
          minDistance \<le> distanceBetween (?out ! i) (?out ! j)
        \<or> distanceBetween (?out ! i) (?out ! j) \<le> 0.001"
    proof (intro allI impI)
      fix i j assume "i < length ?out" "j < length ?out" "i \<noteq> j"
      then have "\<not> overlapping (?out ! i) (?out ! j)" using sep by auto
      then show "minDistance \<le> distanceBetween (?out ! i) (?out ! j)
        \<or> distanceBetween (?out ! i) (?out ! j) \<le> 0.001"
        unfolding overlapping_def by linarith
    qed
    then show ?thesis by blast
  qed
  have b: "rawBubbleData seg ds = Some raw \<longrightarrow> (\<forall>b \<in> set (normalizedDataOf raw). inBox b)"
    using pipeline_inBox by blast
  have c: "iteration < maxIterations \<and> \<not> snd (relaxStep bs) \<longrightarrow>
        relaxLoop iteration bs = (fst (relaxStep bs), iteration)"
    using relaxLoop_break by blast
  have a': "(\<forall>b \<in> set bs. inBox b) \<longrightarrow>
       snd (relaxLoop 0 bs) = maxIterations
     \<or> (\<forall>i < length ?out. \<forall>j < length ?out. i \<noteq> j \<longrightarrow>
          minDistance \<le> distanceBetween (?out ! i) (?out ! j)
        \<or> distanceBetween (?out ! i) (?out ! j) \<le> 0.001)"
    using a by (rule impI)
  show ?thesis by (rule conjI [OF a' conjI [OF b conjI [OF c relaxStep_snd]]])
qed

text \<open>Two bubbles ten units apart: the loop ends at iteration 0 and they stay apart.\<close>

theorem relaxation_separates_witness:
  "inBox (separatedBubbles ! 0) \<and> inBox (separatedBubbles ! 1)
   \<and> snd (relaxLoop 0 separatedBubbles) = 0
   \<and> minDistance \<le> distanceBetween (fst (relaxLoop 0 separatedBubbles) ! 0)
                                      (fst (relaxLoop 0 separatedBubbles) ! 1)"
proof -
  have box: "\<forall>b \<in> set separatedBubbles. inBox b"
    by (simp add: separatedBubbles_def bubbleAt_def inBox_def)
  have nocap: "snd (relaxLoop 0 separatedBubbles) \<noteq> maxIterations"
    by (simp add: separated_run maxIterations_def)
  have len: "length (fst (relaxLoop 0 separatedBubbles)) = 2"
    by (simp only: separated_run fst_conv) (simp add: separatedBubbles_def)
  from relaxation_separates [of separatedBubbles] box nocap
  have "\<forall>i < length (fst (relaxLoop 0 separatedBubbles)).
        \<forall>j < length (fst (relaxLoop 0 separatedBubbles)). i \<noteq> j \<longrightarrow>
          minDistance \<le> distanceBetween (fst (relaxLoop 0 separatedBubbles) ! i)
                                          (fst (relaxLoop 0 separatedBubbles) ! j)
        \<or> distanceBetween (fst (relaxLoop 0 separatedBubbles) ! i)
                           (fst (relaxLoop 0 separatedBubbles) ! j) \<le> 0.001"
    by blast
  then have "minDistance \<le> distanceBetween (fst (relaxLoop 0 separatedBubbles) ! 0)
                                          (fst (relaxLoop 0 separatedBubbles) ! 1)
        \<or> distanceBetween (fst (relaxLoop 0 separatedBubbles) ! 0)
                           (fst (relaxLoop 0 separatedBubbles) ! 1) \<le> 0.001"
    using len by simp
  moreover have "distanceBetween (fst (relaxLoop 0 separatedBubbles) ! 0)
                           (fst (relaxLoop 0 separatedBubbles) ! 1) = 10"
    by (simp only: separated_run fst_conv separated_distance)
  ultimately have "minDistance \<le> distanceBetween (fst (relaxLoop 0 separatedBubbles) ! 0)
                                          (fst (relaxLoop 0 separatedBubbles) ! 1)"
    by simp
  moreover have "inBox (separatedBubbles ! 0) \<and> inBox (separatedBubbles ! 1)"
    by (simp add: separatedBubbles_def bubbleAt_def inBox_def)
  ultimately show ?thesis by (simp only: separated_run snd_conv simp_thms)
qed

text \<open>
  Two bubbles 0.0005 apart, inside the box: the loop ends at iteration 0, below the cap,
  and returns them unmoved, 0.0005 apart, far below \<open>minDistance = 3.5\<close>.
\<close>

theorem relaxation_close_pair_counterexample:
  "inBox (closeBubbles ! 0) \<and> inBox (closeBubbles ! 1)
   \<and> snd (relaxLoop 0 closeBubbles) = 0 \<and> 0 < maxIterations
   \<and> fst (relaxLoop 0 closeBubbles) = closeBubbles
   \<and> distanceBetween (fst (relaxLoop 0 closeBubbles) ! 0) (fst (relaxLoop 0 closeBubbles) ! 1)
        = 1 / 2000
   \<and> minDistance = 35 / 10"
proof -
  have "inBox (closeBubbles ! 0) \<and> inBox (closeBubbles ! 1)"
    by (simp add: closeBubbles_def bubbleAt_def inBox_def)
  moreover have "0 < maxIterations" by (simp add: maxIterations_def)
  moreover have "minDistance = 35 / 10" by (simp add: minDistance_def)
  ultimately show ?thesis
    by (simp only: close_run fst_conv snd_conv close_distance simp_thms)
qed


section \<open>Properties of the year-over-year computation\<close>

lemma orZero_simps [simp]: "orZero None = 0" "orZero (Some x) = x"
  by (simp_all add: orZero_def)

lemma foldl_objectSet_lookup:
  "(foldl (\<lambda>e s. objectSet e s (F s)) e0 segs) k
     = (if k \<in> set segs \<and> k \<noteq> ''__proto__'' then Some (F k) else e0 k)"
  by (induction segs arbitrary: e0) (auto simp: objectSet_def)








section \<open>Properties of the pivot\<close>

lemma digitChar_code: "d < 10 \<Longrightarrow> of_char (digitChar d) = 48 + d"
  by (simp add: digitChar_def)

lemma digitChar_not_minus: "d < 10 \<Longrightarrow> digitChar d \<noteq> CHR ''-''"
proof
  assume d: "d < 10" and e: "digitChar d = CHR ''-''"
  have "(of_char (digitChar d) :: nat) = of_char (CHR ''-'')" by (simp only: e)
  then show False using digitChar_code [OF d] by simp
qed

lemma digitChar_inj: "a < 10 \<Longrightarrow> b < 10 \<Longrightarrow> digitChar a = digitChar b \<Longrightarrow> a = b"
proof -
  assume a: "a < 10" and b: "b < 10" and e: "digitChar a = digitChar b"
  have "(of_char (digitChar a) :: nat) = of_char (digitChar b)" by (simp only: e)
  then show "a = b" using digitChar_code [OF a] digitChar_code [OF b] by simp
qed

lemma digitsOf_no_minus: "CHR ''-'' \<notin> set (digitsOf n)"
proof (induction n rule: digitsOf.induct)
  case (1 n)
  show ?case
  proof (cases "n < 10")
    case True
    then show ?thesis using digitChar_not_minus [of n] by (subst digitsOf.simps) auto
  next
    case False
    have "n mod 10 < 10" by simp
    then have "digitChar (n mod 10) \<noteq> CHR ''-''" by (rule digitChar_not_minus)
    then show ?thesis using False "1.IH" by (subst digitsOf.simps) auto
  qed
qed

lemma digitsOf_nonempty: "digitsOf n \<noteq> []"
  by (subst digitsOf.simps) simp

lemma natOfDigits_digitsOf: "natOfDigits (digitsOf n) = n"
proof (induction n rule: digitsOf.induct)
  case (1 n)
  show ?case
  proof (cases "n < 10")
    case True
    then show ?thesis
      by (subst digitsOf.simps) (simp add: natOfDigits_def digitChar_code)
  next
    case False
    have m: "n mod 10 < 10" by simp
    have "natOfDigits (digitsOf (n div 10) @ [digitChar (n mod 10)])
        = natOfDigits (digitsOf (n div 10)) * 10 + n mod 10"
      by (simp add: natOfDigits_def digitChar_code [OF m])
    also have "\<dots> = n div 10 * 10 + n mod 10" using "1.IH" False by simp
    also have "\<dots> = n" by simp
    finally show ?thesis using False by (subst digitsOf.simps) simp
  qed
qed

lemma digitsOf_inj: "digitsOf a = digitsOf b \<Longrightarrow> a = b"
  by (metis natOfDigits_digitsOf)

lemma takeWhile_until:
  "\<forall>x \<in> set xs. P x \<Longrightarrow> \<not> P y \<Longrightarrow> takeWhile P (xs @ y # ys) = xs"
  by (induction xs) auto

lemma digits_key_inj:
  assumes "digitsOf a @ ''-'' @ s = digitsOf b @ ''-'' @ s'"
  shows "a = b \<and> s = s'"
proof -
  let ?P = "\<lambda>c. c \<noteq> CHR ''-''"
  have 1: "takeWhile ?P (digitsOf a @ CHR ''-'' # s) = digitsOf a"
    by (rule takeWhile_until) (use digitsOf_no_minus [of a] in auto)
  have 2: "takeWhile ?P (digitsOf b @ CHR ''-'' # s') = digitsOf b"
    by (rule takeWhile_until) (use digitsOf_no_minus [of b] in auto)
  have e: "digitsOf a @ CHR ''-'' # s = digitsOf b @ CHR ''-'' # s'" using assms by simp
  have d: "digitsOf a = digitsOf b" using 1 2 e by simp
  then have "a = b" by (rule digitsOf_inj)
  moreover have "s = s'" using e d by simp
  ultimately show ?thesis by simp
qed

lemma digitsOf_hd: "hd (digitsOf n) \<noteq> CHR ''-''"
  using digitsOf_no_minus [of n] digitsOf_nonempty [of n] by (metis hd_in_set)

lemma yearSegmentKey_inj:
  assumes "yearSegmentKey y s = yearSegmentKey y' s'"
  shows "y = y' \<and> s = s'"
proof (cases "y < 0")
  case True
  show ?thesis
  proof (cases "y' < 0")
    case y': True
    have "digitsOf (nat (- y)) @ ''-'' @ s = digitsOf (nat (- y')) @ ''-'' @ s'"
      using assms True y' by (simp add: yearSegmentKey_def stringOfInt_def)
    then have "nat (- y) = nat (- y') \<and> s = s'" by (rule digits_key_inj)
    then show ?thesis using True y' by linarith
  next
    case False
    have "CHR ''-'' # digitsOf (nat (- y)) @ ''-'' @ s = digitsOf (nat y') @ ''-'' @ s'"
      using assms True False by (simp add: yearSegmentKey_def stringOfInt_def)
    then have "hd (digitsOf (nat y') @ ''-'' @ s') = CHR ''-''" by (metis list.sel(1))
    then have "hd (digitsOf (nat y')) = CHR ''-''" using digitsOf_nonempty by simp
    then show ?thesis using digitsOf_hd by simp
  qed
next
  case False
  show ?thesis
  proof (cases "y' < 0")
    case True
    have "digitsOf (nat y) @ ''-'' @ s = CHR ''-'' # digitsOf (nat (- y')) @ ''-'' @ s'"
      using assms True False by (simp add: yearSegmentKey_def stringOfInt_def)
    then have "hd (digitsOf (nat y) @ ''-'' @ s) = CHR ''-''" by (metis list.sel(1))
    then have "hd (digitsOf (nat y)) = CHR ''-''" using digitsOf_nonempty by simp
    then show ?thesis using digitsOf_hd by simp
  next
    case y': False
    have "digitsOf (nat y) @ ''-'' @ s = digitsOf (nat y') @ ''-'' @ s'"
      using assms False y' by (simp add: yearSegmentKey_def stringOfInt_def)
    then have "nat y = nat y' \<and> s = s'" by (rule digits_key_inj)
    then show ?thesis using False y' by linarith
  qed
qed

lemma segmentMap_fold:
  "orZero ((foldl (\<lambda>segmentMap d.
              let key = yearSegmentKey (year d) (g d)
              in segmentMap(key \<mapsto> orZero (segmentMap key) + getDataValue ev d)) m ds) k)
   = orZero (m k)
     + sum_list (map (getDataValue ev) (filter (\<lambda>d. yearSegmentKey (year d) (g d) = k) ds))"
proof (induction ds arbitrary: m)
  case Nil
  show ?case by simp
next
  case (Cons d ds)
  define F where "F = (\<lambda>(segmentMap :: string \<rightharpoonup> real) d.
              let key = yearSegmentKey (year d) (g d)
              in segmentMap(key \<mapsto> orZero (segmentMap key) + getDataValue ev d))"
  define m' where "m' = F m d"
  have m'k: "orZero (m' k) = orZero (m k)
      + (if yearSegmentKey (year d) (g d) = k then getDataValue ev d else 0)"
    by (simp add: m'_def F_def Let_def)
  have "orZero (foldl F m (d # ds) k) = orZero (foldl F m' ds k)"
    by (simp add: m'_def)
  also have "\<dots> = orZero (m' k)
     + sum_list (map (getDataValue ev) (filter (\<lambda>d. yearSegmentKey (year d) (g d) = k) ds))"
    unfolding F_def by (rule Cons.IH)
  also have "\<dots> = orZero (m k)
     + sum_list (map (getDataValue ev) (filter (\<lambda>d. yearSegmentKey (year d) (g d) = k) (d # ds)))"
    by (simp add: m'k)
  finally show ?case unfolding F_def .
qed

lemma segmentMap_total:
  "orZero (segmentMapOf ev g ds (yearSegmentKey y s))
   = sum_list (map (getDataValue ev) (filter (\<lambda>d. year d = y \<and> g d = s) ds))"
proof -
  have "(\<lambda>d. yearSegmentKey (year d) (g d) = yearSegmentKey y s) = (\<lambda>d. year d = y \<and> g d = s)"
    using yearSegmentKey_inj by (auto simp: fun_eq_iff)
  then show ?thesis
    using segmentMap_fold [where m = Map.empty and k = "yearSegmentKey y s" and g = g and ev = ev and ds = ds]
    by (simp add: segmentMapOf_def)
qed

lemma sum_by_segment:
  assumes "finite S"
  shows "(\<Sum>s \<in> S. sum_list (map v (filter (\<lambda>d. P d \<and> g d = s) ds)))
       = sum_list (map (v :: 'a \<Rightarrow> real) (filter (\<lambda>d. P d \<and> g d \<in> S) ds))"
proof (induction ds)
  case Nil
  show ?case by simp
next
  case (Cons d ds)
  have "(\<Sum>s \<in> S. sum_list (map v (filter (\<lambda>d. P d \<and> g d = s) (d # ds))))
      = (\<Sum>s \<in> S. (if g d = s then (if P d then v d else 0) else 0)
                    + sum_list (map v (filter (\<lambda>d. P d \<and> g d = s) ds)))"
    by (rule sum.cong) auto
  also have "\<dots> = (\<Sum>s \<in> S. if g d = s then (if P d then v d else 0) else 0)
                  + (\<Sum>s \<in> S. sum_list (map v (filter (\<lambda>d. P d \<and> g d = s) ds)))"
    by (rule sum.distrib)
  also have "(\<Sum>s \<in> S. if g d = s then (if P d then v d else 0) else 0)
      = (if g d \<in> S then (if P d then v d else 0) else 0)"
    using assms by (rule sum.delta')
  finally show ?case using Cons.IH by auto
qed

lemma set_uniq [simp]: "set (uniq xs) = set xs"
  by (simp add: uniq_def)

lemma pivotYears_set: "set (pivotYears ds) = year ` set ds"
  by (simp add: pivotYears_def sortDefault_def)

lemma pivot_fst:
  "fst (generateSegmentChartData ev ds k g (Some sel))
     = map (\<lambda>yr. foldl (\<lambda>entry segment.
                objectSet entry segment
                  (JNum (orZero (segmentMapOf ev g ds (yearSegmentKey yr segment)))))
              [''year'' \<mapsto> JStr (stringOfInt yr)]
              (snd (generateSegmentChartData ev ds k g (Some sel))))
         (pivotYears ds)"
  by (simp add: generateSegmentChartData_def Let_def)

lemma pivot_snd:
  "sel \<noteq> [] \<Longrightarrow> snd (generateSegmentChartData ev ds k g (Some sel)) = sort (filter (\<lambda>s. s \<noteq> []) sel)"
  by (simp add: generateSegmentChartData_def Let_def)

lemma pivot_lookup:
  assumes "i < length (pivotYears ds)"
  shows "(fst (generateSegmentChartData ev ds k g (Some sel)) ! i) s
       = (if s \<in> set (snd (generateSegmentChartData ev ds k g (Some sel))) \<and> s \<noteq> ''__proto__''
          then Some (JNum (sum_list (map (getDataValue ev)
                 (filter (\<lambda>d. year d = pivotYears ds ! i \<and> g d = s) ds))))
          else [''year'' \<mapsto> JStr (stringOfInt (pivotYears ds ! i))] s)"
  using assms by (simp add: pivot_fst foldl_objectSet_lookup segmentMap_total)

lemma pivot_entry:
  assumes "i < length (pivotYears ds)"
    and "s \<in> set (snd (generateSegmentChartData ev ds k g (Some sel)))"
    and "s \<noteq> ''__proto__''"
  shows "(fst (generateSegmentChartData ev ds k g (Some sel)) ! i) s
       = Some (JNum (sum_list (map (getDataValue ev)
                 (filter (\<lambda>d. year d = pivotYears ds ! i \<and> g d = s) ds))))"
  using assms by (simp add: pivot_lookup)

text \<open>
  Claim C2, as the code has it. For a non-empty explicit segment list and either metric:
  the segments of the result are the non-empty names of the list, sorted; there is one row
  per year of the data; in every row every non-empty name of the list other than
  \<^verbatim>\<open>__proto__\<close> has an entry, the sum of the metric over the records of that year and
  segment (0 when there is none); and the entries of a row for these segments add up to
  the sum of the metric over the records of that year whose segment is one of them. The
  empty name is dropped from the list and gets no entry.
\<close>

theorem pivot_complete:
  assumes "sel \<noteq> []"
  shows "snd (generateSegmentChartData ev ds k g (Some sel)) = sort (filter (\<lambda>s. s \<noteq> []) sel)
     \<and> set (pivotYears ds) = year ` set ds
     \<and> length (fst (generateSegmentChartData ev ds k g (Some sel))) = length (pivotYears ds)
     \<and> (\<forall>i < length (pivotYears ds).
          (\<forall>s \<in> set sel. s \<noteq> [] \<longrightarrow> s \<noteq> ''__proto__'' \<longrightarrow>
             (fst (generateSegmentChartData ev ds k g (Some sel)) ! i) s
               = Some (JNum (sum_list (map (getDataValue ev)
                    (filter (\<lambda>d. year d = pivotYears ds ! i \<and> g d = s) ds)))))
        \<and> (\<Sum>s \<in> set (snd (generateSegmentChartData ev ds k g (Some sel))) - {''__proto__''}.
              numOf ((fst (generateSegmentChartData ev ds k g (Some sel)) ! i) s))
            = sum_list (map (getDataValue ev)
                (filter (\<lambda>d. year d = pivotYears ds ! i
                             \<and> g d \<in> set (snd (generateSegmentChartData ev ds k g (Some sel)))
                                       - {''__proto__''}) ds)))"
proof -
  let ?R = "generateSegmentChartData ev ds k g (Some sel)"
  let ?S = "set (snd ?R) - {''__proto__''}"
  have segs: "snd ?R = sort (filter (\<lambda>s. s \<noteq> []) sel)" using assms by (rule pivot_snd)
  have len: "length (fst ?R) = length (pivotYears ds)" by (simp add: pivot_fst)
  have rows: "\<forall>i < length (pivotYears ds).
          (\<forall>s \<in> set sel. s \<noteq> [] \<longrightarrow> s \<noteq> ''__proto__'' \<longrightarrow>
             (fst ?R ! i) s = Some (JNum (sum_list (map (getDataValue ev)
                    (filter (\<lambda>d. year d = pivotYears ds ! i \<and> g d = s) ds)))))
        \<and> (\<Sum>s \<in> ?S. numOf ((fst ?R ! i) s))
            = sum_list (map (getDataValue ev)
                (filter (\<lambda>d. year d = pivotYears ds ! i \<and> g d \<in> ?S) ds))"
  proof (intro allI impI conjI ballI)
    fix i s assume i: "i < length (pivotYears ds)" and s: "s \<in> set sel" "s \<noteq> []" "s \<noteq> ''__proto__''"
    have "s \<in> set (snd ?R)" using s by (simp add: segs)
    then show "(fst ?R ! i) s = Some (JNum (sum_list (map (getDataValue ev)
                    (filter (\<lambda>d. year d = pivotYears ds ! i \<and> g d = s) ds))))"
      using i s(3) by (simp add: pivot_entry)
  next
    fix i assume i: "i < length (pivotYears ds)"
    have "(\<Sum>s \<in> ?S. numOf ((fst ?R ! i) s))
        = (\<Sum>s \<in> ?S. sum_list (map (getDataValue ev)
                    (filter (\<lambda>d. year d = pivotYears ds ! i \<and> g d = s) ds)))"
      by (rule sum.cong) (simp_all add: pivot_entry [OF i])
    also have "\<dots> = sum_list (map (getDataValue ev)
                (filter (\<lambda>d. year d = pivotYears ds ! i \<and> g d \<in> ?S) ds))"
      by (rule sum_by_segment) simp
    finally show "(\<Sum>s \<in> ?S. numOf ((fst ?R ! i) s))
            = sum_list (map (getDataValue ev)
                (filter (\<lambda>d. year d = pivotYears ds ! i \<and> g d \<in> ?S) ds))" .
  qed
  show ?thesis by (rule conjI [OF segs conjI [OF pivotYears_set conjI [OF len rows]]])
qed

lemma pivotYears_pivotData: "pivotYears pivotData = [2024, 2025]"
  by (simp add: pivotYears_def pivotData_def sampleRecord_def uniq_def sortDefault_def string_years)

text \<open>
  Three records (A in 2024 and 2025, B in 2024), pivoted by service type with the value
  metric: B is 3 in 2024 and 0 in 2025, A is 2 in 2025.
\<close>

theorem pivot_complete_witness:
  "[''A'', ''B''] \<noteq> ([] :: string list)
   \<and> pivotYears pivotData = [2024, 2025]
   \<and> (fst (generateSegmentChartData ''By Value'' pivotData ''serviceType'' serviceType
             (Some [''A'', ''B''])) ! 0) ''B'' = Some (JNum 3)
   \<and> (fst (generateSegmentChartData ''By Value'' pivotData ''serviceType'' serviceType
             (Some [''A'', ''B''])) ! 1) ''A'' = Some (JNum 2)
   \<and> (fst (generateSegmentChartData ''By Value'' pivotData ''serviceType'' serviceType
             (Some [''A'', ''B''])) ! 1) ''B'' = Some (JNum 0)"
proof -
  have ne: "[''A'', ''B''] \<noteq> ([] :: string list)" by simp
  note t = pivot_complete [OF ne, of "''By Value''" pivotData "''serviceType''" serviceType]
  let ?C = "fst (generateSegmentChartData ''By Value'' pivotData ''serviceType'' serviceType
             (Some [''A'', ''B'']))"
  have rows: "\<forall>i < length (pivotYears pivotData). \<forall>s \<in> set [''A'', ''B''].
       s \<noteq> [] \<longrightarrow> s \<noteq> ''__proto__'' \<longrightarrow>
       (?C ! i) s = Some (JNum (sum_list (map (getDataValue ''By Value'')
            (filter (\<lambda>d. year d = pivotYears pivotData ! i \<and> serviceType d = s) pivotData))))"
    using t by blast
  have b0: "(?C ! 0) ''B'' = Some (JNum (sum_list (map (getDataValue ''By Value'')
            (filter (\<lambda>d. year d = pivotYears pivotData ! 0 \<and> serviceType d = ''B'') pivotData))))"
    using rows by (simp add: pivotYears_pivotData)
  have a1: "(?C ! 1) ''A'' = Some (JNum (sum_list (map (getDataValue ''By Value'')
            (filter (\<lambda>d. year d = pivotYears pivotData ! 1 \<and> serviceType d = ''A'') pivotData))))"
    using rows by (simp add: pivotYears_pivotData)
  have b1: "(?C ! 1) ''B'' = Some (JNum (sum_list (map (getDataValue ''By Value'')
            (filter (\<lambda>d. year d = pivotYears pivotData ! 1 \<and> serviceType d = ''B'') pivotData))))"
    using rows by (simp add: pivotYears_pivotData)
  have v: "sum_list (map (getDataValue ''By Value'')
            (filter (\<lambda>d. year d = pivotYears pivotData ! 0 \<and> serviceType d = ''B'') pivotData)) = 3"
      "sum_list (map (getDataValue ''By Value'')
            (filter (\<lambda>d. year d = pivotYears pivotData ! 1 \<and> serviceType d = ''A'') pivotData)) = 2"
      "sum_list (map (getDataValue ''By Value'')
            (filter (\<lambda>d. year d = pivotYears pivotData ! 1 \<and> serviceType d = ''B'') pivotData)) = 0"
    unfolding pivotYears_pivotData
    by (simp_all add: pivotData_def sampleRecord_def getDataValue_def)
  show ?thesis using b0 a1 b1 unfolding v by (simp add: pivotYears_pivotData)
qed

text \<open>
  The explicit list of the empty name, \<^verbatim>\<open>__proto__\<close> and A: the empty name is not among
  the segments, and the row of 2024 has an entry neither for the empty name nor for
  \<^verbatim>\<open>__proto__\<close>.
\<close>

theorem pivot_empty_segment_counterexample:
  "pivotYears pivotData = [2024, 2025]
   \<and> snd (generateSegmentChartData ''By Value'' pivotData ''serviceType'' serviceType
             (Some [[], ''__proto__'', ''A''])) = [''A'', ''__proto__'']
   \<and> (fst (generateSegmentChartData ''By Value'' pivotData ''serviceType'' serviceType
             (Some [[], ''__proto__'', ''A''])) ! 0) [] = None
   \<and> (fst (generateSegmentChartData ''By Value'' pivotData ''serviceType'' serviceType
             (Some [[], ''__proto__'', ''A''])) ! 0) ''__proto__'' = None"
proof -
  have s: "snd (generateSegmentChartData ''By Value'' pivotData ''serviceType'' serviceType
             (Some [[], ''__proto__'', ''A''])) = [''A'', ''__proto__'']"
    by (simp add: pivot_snd)
  have i: "0 < length (pivotYears pivotData)" by (simp add: pivotYears_pivotData)
  have a: "(fst (generateSegmentChartData ''By Value'' pivotData ''serviceType'' serviceType
             (Some [[], ''__proto__'', ''A''])) ! 0) [] = None"
    unfolding pivot_lookup [OF i] s by simp
  have b: "(fst (generateSegmentChartData ''By Value'' pivotData ''serviceType'' serviceType
             (Some [[], ''__proto__'', ''A''])) ! 0) ''__proto__'' = None"
    unfolding pivot_lookup [OF i] s by simp
  show ?thesis using s a b pivotYears_pivotData by simp
qed

end
